theory Spec2Isabelle
  imports Complex_Main "HOL-Library.Log_Nat" "HOL-Library.Sublist" "HOL-Library.Code_Target_Nat"
begin


section \<open>Strings and numbers of the source language\<close>

text \<open>
  A TypeScript string is a sequence of UTF-16 code units: \<open>length\<close> and \<open>slice\<close> count
  code units, while \<open>TextEncoder\<close> counts UTF-8 bytes. Strings are therefore lists of
  code units; \<open>js\<close> writes an ASCII literal.
\<close>

type_synonym jsstring = "nat list"

definition js :: "string \<Rightarrow> jsstring" where
  "js s = map of_char s"

text \<open>
  \<open>toLowerCase\<close> on the letters A-Z. Every address, selector and keyword the program
  lower-cases is ASCII; code units outside A-Z are left as they are.
\<close>

definition lowerUnit :: "nat \<Rightarrow> nat" where
  "lowerUnit c = (if 65 \<le> c \<and> c \<le> 90 then c + 32 else c)"

definition toLowerCase :: "jsstring \<Rightarrow> jsstring" where
  "toLowerCase s = map lowerUnit s"

definition includes_str :: "jsstring \<Rightarrow> jsstring \<Rightarrow> bool" where
  "includes_str s t = sublist t s"

definition startsWith :: "jsstring \<Rightarrow> jsstring \<Rightarrow> bool" where
  "startsWith s t = prefix t s"

subsection \<open>Double-precision arithmetic\<close>

text \<open>
  A \<open>number\<close> is an IEEE-754 double. A finite double is a rational, and every arithmetic
  operation returns the exact result rounded to 53 significant bits, ties to even:
  \<open>a * b\<close> in the source is \<open>fl (a * b)\<close> here, the literal \<open>0.15\<close> is \<open>fl (3/20)\<close>.
  \<open>binexp x\<close> is the binary exponent of a positive \<open>x\<close>. Overflow and subnormal
  numbers (magnitudes outside \<open>2^-1022 .. 2^1024\<close>) are not modelled; the scorer
  never forms one.
\<close>

definition binexp :: "rat \<Rightarrow> int" where
  "binexp x = (if 1 \<le> x then int (floorlog 2 (nat \<lfloor>x\<rfloor>)) - 1
               else - int (floorlog 2 (nat \<lceil>1 / x\<rceil> - 1)))"

definition rne :: "rat \<Rightarrow> int" where
  "rne q = (let f = \<lfloor>q\<rfloor>; r = q - of_int f
            in if r < 1 / 2 then f else if 1 / 2 < r then f + 1
               else if even f then f else f + 1)"

definition fl :: "rat \<Rightarrow> rat" where
  "fl x = (if x = 0 then 0
           else let e = binexp \<bar>x\<bar> - 52
                in sgn x * of_int (rne (\<bar>x\<bar> / 2 powi e)) * 2 powi e)"

text \<open>\<open>Math.round\<close>: the nearest integer, a tie going up.\<close>

definition jsround :: "rat \<Rightarrow> int" where
  "jsround x = \<lfloor>x + 1 / 2\<rfloor>"

section \<open>Data model (types/index.ts)\<close>

datatype RiskLevel = LOW | MEDIUM | HIGH

text \<open>
  A signal carries its label, weight and score. The description and evidence strings of
  the source are presentation only and take no part in the score; they are left out.
\<close>

record RiskSignal =
  name :: string
  weight :: rat
  score :: int

text \<open>
  A Basescan transaction, with the fields the scorer reads. \<open>txValue\<close> is the decoded
  \<open>BigInt(tx.value)\<close>, \<open>txTimeStamp\<close> the decoded \<open>parseInt(tx.timeStamp)\<close>;
  \<open>functionName\<close> and \<open>input\<close> are read through \<open>?.\<close> in the source, so they may be
  undefined (\<open>None\<close>).
\<close>

record BasescanTransaction =
  txHash :: jsstring
  txTimeStamp :: int
  txFrom :: jsstring
  txTo :: jsstring
  txValue :: nat
  txFunctionName :: "jsstring option"
  txInput :: "jsstring option"

record BasescanTokenTransfer =
  tokFrom :: jsstring
  tokTo :: jsstring
  tokContractAddress :: jsstring

record ScamFlag =
  source :: jsstring
  category :: jsstring
  description :: jsstring

text \<open>
  \<open>accountAge\<close> is a whole number of seconds (the fetcher computes it as a difference
  of two unix timestamps), \<open>None\<close> for \<open>null\<close>.
\<close>

record WalletData =
  address :: jsstring
  balance :: nat
  transactionCount :: int
  transactions :: "BasescanTransaction list"
  tokenTransfers :: "BasescanTokenTransfer list"
  internalTransactions :: "BasescanTransaction list"
  accountAge :: "int option"
  firstTxTimestamp :: "int option"
  isContract :: bool
  scamFlags :: "ScamFlag list"

record RiskScore =
  totalScore :: int
  level :: RiskLevel
  signals :: "RiskSignal list"

section \<open>Risk scoring engine (services/riskScorer.ts)\<close>

definition scoreAccountAge :: "WalletData \<Rightarrow> RiskSignal" where
  "scoreAccountAge d =
     \<lparr>name = ''Account Age'', weight = fl (1 / 10),
      score = (case accountAge d of
                 None \<Rightarrow> 70
               | Some a \<Rightarrow>
                   let days = fl (of_int a / 86400)
                   in if days < 7 then 90
                      else if days < 30 then 60
                      else if days < 180 then 30
                      else 10)\<rparr>"

definition scoreTransactionVolume :: "WalletData \<Rightarrow> RiskSignal" where
  "scoreTransactionVolume d =
     (let txCount = transactionCount d
      in \<lparr>name = ''Transaction Volume'', weight = fl (3 / 20),
          score = (if txCount = 0 then 50
                   else if txCount < 5 then 60
                   else if txCount < 20 then 30
                   else if txCount > 500 then 40
                   else 10)\<rparr>)"

definition scoreScamInteractions :: "WalletData \<Rightarrow> RiskSignal" where
  "scoreScamInteractions d =
     (let flagCount = int (length (scamFlags d))
      in if flagCount = 0
         then \<lparr>name = ''Scam Database'', weight = fl (1 / 4), score = 0\<rparr>
         else \<lparr>name = ''Scam Database'', weight = fl (1 / 4),
               score = min 100 (flagCount * 40)\<rparr>)"

text \<open>The loop over the sorted timestamps: two neighbours less than an hour apart.\<close>

fun hasCluster :: "int list \<Rightarrow> bool" where
  "hasCluster (previous # current # rest) =
     (if current - previous < 3600 then True else hasCluster (current # rest))"
| "hasCluster _ = False"

text \<open>
  \<open>parseFloat(formatEther(v))\<close> is the double nearest to \<open>v / 10^18\<close>:
  \<open>formatEther\<close> prints the exact decimal.
\<close>

definition valueEth :: "BasescanTransaction \<Rightarrow> rat" where
  "valueEth tx = fl (of_nat (txValue tx) / 10 ^ 18)"

definition largeOutgoing :: "WalletData \<Rightarrow> BasescanTransaction list" where
  "largeOutgoing d =
     (let outgoing = filter (\<lambda>tx. toLowerCase (txFrom tx) = toLowerCase (address d))
                        (transactions d)
      in filter (\<lambda>tx. valueEth tx > 1) outgoing)"

definition scoreLargeTransfers :: "WalletData \<Rightarrow> RiskSignal" where
  "scoreLargeTransfers d =
     (if length (transactions d) = 0
      then \<lparr>name = ''Large Transfers'', weight = fl (3 / 20), score = 20\<rparr>
      else
        let large = largeOutgoing d;
            largeTimestamps = sort (map txTimeStamp large)
        in \<lparr>name = ''Large Transfers'', weight = fl (3 / 20),
            score = (if hasCluster largeTimestamps then 80
                     else if length large > 5 then 50
                     else if length large > 0 then 20
                     else 5)\<rparr>)"

definition approveSelector :: jsstring where
  "approveSelector = js ''0x095ea7b3''"

definition maxUint :: jsstring where
  "maxUint = js ''ffffffffffffffffffffffffffffffffffffffffffffffffffffffffffffffff''"

definition isApprove :: "BasescanTransaction \<Rightarrow> bool" where
  "isApprove tx =
     ((case txFunctionName tx of
         None \<Rightarrow> False
       | Some f \<Rightarrow> includes_str (toLowerCase f) (js ''approve''))
      \<or> (case txInput tx of None \<Rightarrow> False | Some i \<Rightarrow> startsWith i approveSelector))"

definition isUnlimitedApprove :: "BasescanTransaction \<Rightarrow> bool" where
  "isUnlimitedApprove tx =
     (case txInput tx of
        None \<Rightarrow> False
      | Some i \<Rightarrow> startsWith i approveSelector \<and> includes_str i maxUint)"

definition scoreContractApprovals :: "WalletData \<Rightarrow> RiskSignal" where
  "scoreContractApprovals d =
     (let approveTxs = filter isApprove (transactions d);
          unlimitedApprovals = filter isUnlimitedApprove (transactions d)
      in \<lparr>name = ''Contract Approvals'', weight = fl (3 / 20),
          score = (if length unlimitedApprovals > 5 then 70
                   else if length approveTxs > 10 then 50
                   else if length approveTxs > 0 then 15
                   else 5)\<rparr>)"

definition scoreFundingSource :: "WalletData \<Rightarrow> RiskSignal" where
  "scoreFundingSource d =
     (let incoming = filter (\<lambda>tx. toLowerCase (txTo tx) = toLowerCase (address d))
                        (transactions d)
      in if length incoming = 0
         then \<lparr>name = ''Funding Source'', weight = fl (1 / 10), score = 40\<rparr>
         else
           let flaggedFunders =
                 filter (\<lambda>tx. list_ex (\<lambda>f. includes_str (toLowerCase (description f))
                                               (toLowerCase (txFrom tx)))
                                  (scamFlags d))
                   incoming
           in if length flaggedFunders > 0
              then \<lparr>name = ''Funding Source'', weight = fl (1 / 10), score = 90\<rparr>
              else \<lparr>name = ''Funding Source'', weight = fl (1 / 10), score = 10\<rparr>)"

definition scoreTokenDiversity :: "WalletData \<Rightarrow> RiskSignal" where
  "scoreTokenDiversity d =
     (let uniqueTokens = remdups (map (\<lambda>t. toLowerCase (tokContractAddress t))
                                    (tokenTransfers d));
          tokenCount = length uniqueTokens
      in \<lparr>name = ''Token Diversity'', weight = fl (1 / 10),
          score = (if tokenCount > 50 then 60
                   else if tokenCount > 20 then 30
                   else if tokenCount > 0 then 10
                   else 15)\<rparr>)"

text \<open>
  The weighted total as the source's \<open>reduce\<close> forms it: \<open>addWeighted\<close> is the
  callback \<open>(sum, s) => sum + s.score * s.weight\<close>; the product and the sum are each
  rounded to a double.
\<close>

definition addWeighted :: "rat \<Rightarrow> RiskSignal \<Rightarrow> rat" where
  "addWeighted acc s = fl (acc + fl (of_int (score s) * weight s))"

definition weightedSum :: "RiskSignal list \<Rightarrow> rat" where
  "weightedSum sigs = foldl addWeighted 0 sigs"

definition scamBoost :: "WalletData \<Rightarrow> int" where
  "scamBoost d =
     (if length (scamFlags d) \<ge> 3 then 20
      else if length (scamFlags d) \<ge> 2 then 15
      else if length (scamFlags d) \<ge> 1 then 10
      else 0)"

definition levelOf :: "int \<Rightarrow> RiskLevel" where
  "levelOf clampedScore =
     (if clampedScore \<le> 30 then LOW else if clampedScore \<le> 60 then MEDIUM else HIGH)"

definition computeRiskScore :: "WalletData \<Rightarrow> RiskScore" where
  "computeRiskScore d =
     (let sigs = [scoreAccountAge d, scoreTransactionVolume d, scoreScamInteractions d,
                  scoreLargeTransfers d, scoreContractApprovals d, scoreFundingSource d,
                  scoreTokenDiversity d];
          score = jsround (fl (weightedSum sigs + of_int (scamBoost d)));
          clampedScore = max 0 (min 100 score)
      in \<lparr>totalScore = clampedScore, level = levelOf clampedScore, signals = sigs\<rparr>)"

text \<open>
  The formula \<open>\<Sum>(score \<times> weight) + boost\<close> in exact arithmetic with the decimal
  weights 0.10, 0.15 and 0.25, before any rounding: first the six signals other than the
  scam database, then the whole.
\<close>

definition nominalOthers :: "WalletData \<Rightarrow> rat" where
  "nominalOthers d =
     of_int (score (scoreAccountAge d)) * (1 / 10)
     + of_int (score (scoreTransactionVolume d)) * (3 / 20)
     + of_int (score (scoreLargeTransfers d)) * (3 / 20)
     + of_int (score (scoreContractApprovals d)) * (3 / 20)
     + of_int (score (scoreFundingSource d)) * (1 / 10)
     + of_int (score (scoreTokenDiversity d)) * (1 / 10)"

definition nominalTotal :: "WalletData \<Rightarrow> rat" where
  "nominalTotal d =
     nominalOthers d + of_int (score (scoreScamInteractions d)) * (1 / 4)
     + of_int (scamBoost d)"

text \<open>
  The seven signals in the order the source pushes them, and the value handed to
  \<open>Math.round\<close>.
\<close>

definition allSignals :: "WalletData \<Rightarrow> RiskSignal list" where
  "allSignals d = [scoreAccountAge d, scoreTransactionVolume d, scoreScamInteractions d,
     scoreLargeTransfers d, scoreContractApprovals d, scoreFundingSource d,
     scoreTokenDiversity d]"

definition rawScore :: "WalletData \<Rightarrow> rat" where
  "rawScore d = fl (weightedSum (allSignals d) + of_int (scamBoost d))"

text \<open>
  The largest and smallest factor by which one rounding changes a positive number: a
  double carries 53 significant bits.
\<close>

definition Uc :: rat where
  "Uc = 1 + 1 / 2 ^ 53"

definition Lc :: rat where
  "Lc = 1 - 1 / 2 ^ 53"

subsection \<open>Example wallets\<close>

text \<open>
  The wallets of tests/riskScorer.test.ts: a long-established wallet with one incoming
  transfer and one token, and a fresh wallet with no transactions on record, each with a
  chosen list of scam flags; and a wallet that signed six unlimited approvals within
  one hour.
\<close>

definition exampleAddress :: jsstring where
  "exampleAddress = js ''0x742d35Cc6634C0532925a3b844Bc9e7595f8b3a1''"

definition funder :: jsstring where
  "funder = js ''0xbbbbbbbbbbbbbbbbbbbbbbbbbbbbbbbbbbbbbbbb''"

definition incomingTx :: BasescanTransaction where
  "incomingTx = \<lparr>txHash = js ''0x01'', txTimeStamp = 1700000000, txFrom = funder,
     txTo = js ''0x742d35cc6634c0532925a3b844bc9e7595f8b3a1'', txValue = 100000000000000000,
     txFunctionName = Some [], txInput = Some (js ''0x'')\<rparr>"

definition usdcTransfer :: BasescanTokenTransfer where
  "usdcTransfer = \<lparr>tokFrom = funder, tokTo = js ''0x742d35cc6634c0532925a3b844bc9e7595f8b3a1'',
     tokContractAddress = js ''0x833589fcd6edb6e08f4c7c32d4f71b54bda02913''\<rparr>"

definition threeFlags :: "ScamFlag list" where
  "threeFlags =
     [\<lparr>source = js ''local'', category = js ''drainer'', description = js ''Known drainer''\<rparr>,
      \<lparr>source = js ''ChainAbuse'', category = js ''scam'', description = js ''Reported scam''\<rparr>,
      \<lparr>source = js ''local'', category = js ''phishing'', description = js ''Phishing address''\<rparr>]"

definition mixerFlag :: ScamFlag where
  "mixerFlag = \<lparr>source = js ''local'', category = js ''mixer'', description = js ''Mixer interaction''\<rparr>"

definition establishedWallet :: "ScamFlag list \<Rightarrow> WalletData" where
  "establishedWallet flags =
     \<lparr>address = exampleAddress, balance = 1000000000000000000, transactionCount = 100,
      transactions = [incomingTx], tokenTransfers = [usdcTransfer], internalTransactions = [],
      accountAge = Some (365 * 86400), firstTxTimestamp = Some 1700000000,
      isContract = False, scamFlags = flags\<rparr>"

definition freshWallet :: "int \<Rightarrow> int \<Rightarrow> ScamFlag list \<Rightarrow> WalletData" where
  "freshWallet txCount ageDays flags =
     \<lparr>address = exampleAddress, balance = 1000000000000000000, transactionCount = txCount,
      transactions = [], tokenTransfers = [], internalTransactions = [],
      accountAge = Some (ageDays * 86400), firstTxTimestamp = Some 1700000000,
      isContract = False, scamFlags = flags\<rparr>"

definition approveMaxTx :: BasescanTransaction where
  "approveMaxTx =
     \<lparr>txHash = js ''0x02'', txTimeStamp = 1700000000,
      txFrom = js ''0x742d35cc6634c0532925a3b844bc9e7595f8b3a1'',
      txTo = js ''0xcccccccccccccccccccccccccccccccccccccccc'',
      txValue = 2000000000000000000,
      txFunctionName = Some (js ''approve(address spender, uint256 amount)''),
      txInput = Some (js ''0x095ea7b3000000000000000000000000ffffffffffffffffffffffffffffffffffffffffffffffffffffffffffffffff0000000000000000000000000000000000000000'')\<rparr>"

definition drainedWallet :: WalletData where
  "drainedWallet =
     \<lparr>address = exampleAddress, balance = 0, transactionCount = 3,
      transactions = replicate 6 approveMaxTx, tokenTransfers = [], internalTransactions = [],
      accountAge = Some (15 * 86400), firstTxTimestamp = Some 1700000000,
      isContract = False, scamFlags = [mixerFlag]\<rparr>"


section \<open>Cache and rate limiting (utils/rateLimit.ts)\<close>

text \<open>
  Both classes read the clock through \<open>Date.now()\<close>; the reading is the argument
  \<open>now\<close> of each operation, in milliseconds. Each method takes the object and returns
  it as the call leaves it.
\<close>

subsection \<open>TtlCache\<close>

record 'v CacheEntry =
  entryValue :: 'v
  expiresAt :: int

record 'v TtlCache =
  ttlMs :: int
  cache :: "jsstring \<rightharpoonup> 'v CacheEntry"

definition newTtlCache :: "int \<Rightarrow> 'v TtlCache" where
  "newTtlCache ttl = \<lparr>ttlMs = ttl, cache = Map.empty\<rparr>"

definition cacheGet :: "int \<Rightarrow> jsstring \<Rightarrow> 'v TtlCache \<Rightarrow> 'v option \<times> 'v TtlCache" where
  "cacheGet now key c =
     (case cache c key of
        None \<Rightarrow> (None, c)
      | Some entry \<Rightarrow>
          if now > expiresAt entry
          then (None, c\<lparr>cache := (cache c)(key := None)\<rparr>)
          else (Some (entryValue entry), c))"

definition cacheSet :: "int \<Rightarrow> jsstring \<Rightarrow> 'v \<Rightarrow> 'v TtlCache \<Rightarrow> 'v TtlCache" where
  "cacheSet now key v c =
     c\<lparr>cache := (cache c)(key \<mapsto> \<lparr>entryValue = v, expiresAt = now + ttlMs c\<rparr>)\<rparr>"

definition cacheHas :: "int \<Rightarrow> jsstring \<Rightarrow> 'v TtlCache \<Rightarrow> bool \<times> 'v TtlCache" where
  "cacheHas now key c = (fst (cacheGet now key c) \<noteq> None, snd (cacheGet now key c))"

definition cacheClear :: "'v TtlCache \<Rightarrow> 'v TtlCache" where
  "cacheClear c = c\<lparr>cache := Map.empty\<rparr>"

subsection \<open>UserRateLimiter\<close>

record UserRateLimiter =
  maxQueries :: int
  windowMs :: int
  queries :: "int \<rightharpoonup> int list"

definition newUserRateLimiter :: "int \<Rightarrow> int \<Rightarrow> UserRateLimiter" where
  "newUserRateLimiter maxQ window = \<lparr>maxQueries = maxQ, windowMs = window, queries = Map.empty\<rparr>"

text \<open>\<open>this.queries.get(fid) || []\<close>: the recorded timestamps of an identity.\<close>

definition recorded :: "UserRateLimiter \<Rightarrow> int \<Rightarrow> int list" where
  "recorded l fid = (case queries l fid of None \<Rightarrow> [] | Some ts \<Rightarrow> ts)"

definition checkAndRecord :: "int \<Rightarrow> int \<Rightarrow> UserRateLimiter \<Rightarrow> bool \<times> UserRateLimiter" where
  "checkAndRecord now fid l =
     (let userTimestamps = filter (\<lambda>t. now - t < windowMs l) (recorded l fid)
      in if int (length userTimestamps) \<ge> maxQueries l
         then (False, l)
         else (True, l\<lparr>queries := (queries l)(fid \<mapsto> userTimestamps @ [now])\<rparr>))"



section \<open>Scam registry (services/scamDb.ts, data/knownContracts.ts)\<close>

record KnownContract =
  kcAddress :: jsstring
  kcLabel :: jsstring
  kcCategory :: jsstring

definition knownContracts :: "KnownContract list" where
  "knownContracts =
     [\<lparr>kcAddress = js ''0x3fc91a3afd70395cd496c647d5a6cc9d4b2b7fad'',
       kcLabel = js ''Uniswap UniversalRouter'', kcCategory = js ''dex''\<rparr>,
      \<lparr>kcAddress = js ''0x2626664c2603336e57b271c5c0b26f421741e481'',
       kcLabel = js ''Uniswap V3 SwapRouter02'', kcCategory = js ''dex''\<rparr>,
      \<lparr>kcAddress = js ''0x198ef79f1f515f02dfe9e3115ed9fc07183f02fc'',
       kcLabel = js ''Uniswap V2 Router'', kcCategory = js ''dex''\<rparr>,
      \<lparr>kcAddress = js ''0x6cdda07560f6c01c3f9ee090e98368b06c1405cb'',
       kcLabel = js ''Aerodrome Router'', kcCategory = js ''dex''\<rparr>,
      \<lparr>kcAddress = js ''0xcf77a3ba9a5ca399b7c97c74d54e5b1beb874e43'',
       kcLabel = js ''Aerodrome V2 Router'', kcCategory = js ''dex''\<rparr>,
      \<lparr>kcAddress = js ''0x833589fcd6edb6e08f4c7c32d4f71b54bda02913'',
       kcLabel = js ''USDC (Base)'', kcCategory = js ''token''\<rparr>,
      \<lparr>kcAddress = js ''0x50c5725949a6f0c72e6c4a641f24049a917db0cb'',
       kcLabel = js ''DAI (Base)'', kcCategory = js ''token''\<rparr>,
      \<lparr>kcAddress = js ''0xd9aaec86b65d86f6a7b5b1b0c42ffa531710b6ca'',
       kcLabel = js ''USDbC (Base)'', kcCategory = js ''token''\<rparr>,
      \<lparr>kcAddress = js ''0x4200000000000000000000000000000000000006'',
       kcLabel = js ''WETH (Base)'', kcCategory = js ''token''\<rparr>,
      \<lparr>kcAddress = js ''0x4200000000000000000000000000000000000010'',
       kcLabel = js ''Base L2StandardBridge'', kcCategory = js ''bridge''\<rparr>,
      \<lparr>kcAddress = js ''0x4200000000000000000000000000000000000007'',
       kcLabel = js ''Base L2CrossDomainMessenger'', kcCategory = js ''bridge''\<rparr>,
      \<lparr>kcAddress = js ''0x49048044d57e1c92a77f79988d21fa8faf74e97e'',
       kcLabel = js ''Base Portal (L1)'', kcCategory = js ''bridge''\<rparr>,
      \<lparr>kcAddress = js ''0xa238dd80c259a72e81d7e4664a9801593f98d1c5'',
       kcLabel = js ''Aave V3 Pool (Base)'', kcCategory = js ''lending''\<rparr>,
      \<lparr>kcAddress = js ''0x46e6b214b524310239732d51387075e0e70970bf'',
       kcLabel = js ''Moonwell USDC Market'', kcCategory = js ''lending''\<rparr>,
      \<lparr>kcAddress = js ''0x4200000000000000000000000000000000000015'',
       kcLabel = js ''Base L1Block'', kcCategory = js ''infra''\<rparr>,
      \<lparr>kcAddress = js ''0x420000000000000000000000000000000000000f'',
       kcLabel = js ''Base GasPriceOracle'', kcCategory = js ''infra''\<rparr>]"

definition whitelistedAddresses :: "jsstring set" where
  "whitelistedAddresses = set (map (\<lambda>c. toLowerCase (kcAddress c)) knownContracts)"

definition isWhitelisted :: "jsstring \<Rightarrow> bool" where
  "isWhitelisted a = (toLowerCase a \<in> whitelistedAddresses)"

text \<open>
  The local table \<open>localScamDb\<close> is a module-level map from the lower-case address to
  category and description; the functions take it and, where they write, return it.
\<close>

record ScamSeedEntry =
  seedAddress :: jsstring
  seedCategory :: jsstring
  seedDescription :: jsstring

record LocalMatch =
  matchCategory :: jsstring
  matchDescription :: jsstring

type_synonym localScamDb = "jsstring \<rightharpoonup> LocalMatch"

definition seedLocalDb :: "ScamSeedEntry list \<Rightarrow> localScamDb \<Rightarrow> localScamDb" where
  "seedLocalDb entries db =
     foldl (\<lambda>m entry. m(toLowerCase (seedAddress entry) \<mapsto>
                          \<lparr>matchCategory = seedCategory entry,
                           matchDescription = seedDescription entry\<rparr>))
       db entries"

definition localFlag :: "LocalMatch \<Rightarrow> ScamFlag" where
  "localFlag m =
     \<lparr>source = js ''local'', category = matchCategory m, description = matchDescription m\<rparr>"

definition batchCheckLocal :: "localScamDb \<Rightarrow> jsstring list \<Rightarrow> (jsstring \<rightharpoonup> ScamFlag)" where
  "batchCheckLocal db addresses =
     foldl (\<lambda>results addr.
              if isWhitelisted addr then results
              else (case db (toLowerCase addr) of
                      None \<Rightarrow> results
                    | Some m \<Rightarrow> results(addr \<mapsto> localFlag m)))
       Map.empty addresses"

section \<open>Provider rotator (services/rpcFallback.ts)\<close>


















definition limiterAfterOneCall :: UserRateLimiter where
  "limiterAfterOneCall = snd (checkAndRecord 0 500 (newUserRateLimiter 1 50))"


definition pinkDrainerSeed :: ScamSeedEntry where
  "pinkDrainerSeed =
     \<lparr>seedAddress = js ''0x3fc91a3afd70395cd496c647d5a6cc9d4b2b7fad'',
      seedCategory = js ''drainer'',
      seedDescription = js ''Pink Drainer associated address''\<rparr>"

definition tornadoSeed :: ScamSeedEntry where
  "tornadoSeed =
     \<lparr>seedAddress = js ''0xd90e2f925da726b50c4ed8d0fb90ad053324f31b'',
      seedCategory = js ''mixer'',
      seedDescription = js ''Tornado Cash Router''\<rparr>"

definition misconfiguredDb :: localScamDb where
  "misconfiguredDb = seedLocalDb [pinkDrainerSeed, tornadoSeed] Map.empty"

definition routerMixedCase :: jsstring where
  "routerMixedCase = js ''0x3FC91A3afd70395Cd496C647d5a6CC9D4B2b7FAD''"

definition tornadoRouter :: jsstring where
  "tornadoRouter = js ''0xd90e2f925da726b50c4ed8d0fb90ad053324f31b''"

definition cleanAddress :: jsstring where
  "cleanAddress = js ''0x1234567890123456789012345678901234567890''"










section \<open>Configuration (config.ts)\<close>

definition maxReportLength :: nat where
  "maxReportLength = 1024"

text \<open>
  The disclaimer: a warning sign (U+26A0 U+FE0F), the text, and an em dash (U+2014)
  before "DYOR."; 93 code units, 99 bytes of UTF-8.
\<close>

definition configDisclaimer :: jsstring where
  "configDisclaimer =
     [9888, 65039]
     @ js '' Not financial advice. Onchain data is public but interpretations are probabilistic ''
     @ [8212] @ js '' DYOR.''"

section \<open>Reports (types/index.ts, utils/address.ts)\<close>

record TopInteraction =
  tiAddress :: jsstring
  tiLabel :: "jsstring option"
  tiTxCount :: int

text \<open>
  A report. The field \<open>chain\<close> is the constant "Base" and is left out; the score and the
  transaction counts are whole numbers.
\<close>

record WalletReport =
  reportAddress :: jsstring
  riskLevel :: RiskLevel
  riskScore :: int
  confidence :: int
  reportSignals :: "RiskSignal list"
  summary :: jsstring
  keyFindings :: "jsstring list"
  topInteractions :: "TopInteraction list"
  recommendations :: "jsstring list"
  disclaimer :: jsstring
  analyzedAt :: jsstring
  responseTimeMs :: int

fun riskEmoji :: "RiskLevel \<Rightarrow> jsstring" where
  "riskEmoji LOW = [55357, 57314]"
| "riskEmoji MEDIUM = [55357, 57313]"
| "riskEmoji HIGH = [55357, 56628]"

fun levelName :: "RiskLevel \<Rightarrow> jsstring" where
  "levelName LOW = js ''LOW''"
| "levelName MEDIUM = js ''MEDIUM''"
| "levelName HIGH = js ''HIGH''"

text \<open>
  \<open>shortenAddress(address)\<close> with the default \<open>chars = 4\<close>:
  \<open>address.slice(0, 6) + '...' + address.slice(-4)\<close>.
\<close>

definition shortenAddress :: "jsstring \<Rightarrow> jsstring" where
  "shortenAddress a = take 6 a @ js ''...'' @ drop (length a - 4) a"

text \<open>A whole number inside a template literal: its decimal digits.\<close>

fun showNat :: "nat \<Rightarrow> jsstring" where
  "showNat n = (if n < 10 then [48 + n] else showNat (n div 10) @ [48 + n mod 10])"

definition showInt :: "int \<Rightarrow> jsstring" where
  "showInt i = (if i < 0 then 45 # showNat (nat (- i)) else showNat (nat i))"

text \<open>\<open>Array.prototype.join\<close>.\<close>

fun joinWith :: "jsstring \<Rightarrow> jsstring list \<Rightarrow> jsstring" where
  "joinWith sep [] = []"
| "joinWith sep [x] = x"
| "joinWith sep (x # y # rest) = x @ sep @ joinWith sep (y # rest)"

section \<open>Report formatter (services/reportGenerator.ts)\<close>

text \<open>
  \<open>new TextEncoder().encode(s).length\<close>: one byte for a code unit below U+0080, two
  below U+0800, four for a surrogate pair, three for any other code unit; a surrogate
  without its partner is encoded as U+FFFD, three bytes.
\<close>

definition isHighSurrogate :: "nat \<Rightarrow> bool" where
  "isHighSurrogate c = (55296 \<le> c \<and> c < 56320)"

definition isLowSurrogate :: "nat \<Rightarrow> bool" where
  "isLowSurrogate c = (56320 \<le> c \<and> c < 57344)"

fun utf8Length :: "jsstring \<Rightarrow> nat" where
  "utf8Length [] = 0"
| "utf8Length [c] = (if c < 128 then 1 else if c < 2048 then 2 else 3)"
| "utf8Length (c # d # rest) =
     (if c < 128 then 1 + utf8Length (d # rest)
      else if c < 2048 then 2 + utf8Length (d # rest)
      else if isHighSurrogate c \<and> isLowSurrogate d then 4 + utf8Length rest
      else 3 + utf8Length (d # rest))"

text \<open>\<open>s.lastIndexOf(c)\<close> for a single code unit: -1 when it does not occur.\<close>

definition lastIndexOf :: "jsstring \<Rightarrow> nat \<Rightarrow> int" where
  "lastIndexOf s c =
     (if c \<in> set s then int (length s) - 1 - int (length (takeWhile (\<lambda>x. x \<noteq> c) (rev s)))
      else - 1)"

definition interactionLine :: "TopInteraction \<Rightarrow> jsstring" where
  "interactionLine i =
     [8596, 32]
     @ (case tiLabel i of
          None \<Rightarrow> shortenAddress (tiAddress i)
        | Some l \<Rightarrow> if l = [] then shortenAddress (tiAddress i) else l)
     @ js '' ('' @ showInt (tiTxCount i) @ js '' txs)''"

text \<open>The text as assembled before the byte limit is applied.\<close>

definition assembleCast :: "WalletReport \<Rightarrow> jsstring" where
  "assembleCast report =
     (let emoji = riskEmoji (riskLevel report);
          addr = shortenAddress (reportAddress report);
          cast1 = [55357, 56589] @ js '' Tell-Tale Bot '' @ [8212] @ js '' Wallet Report'' @ [10, 10];
          cast2 = cast1 @ [55357, 56525] @ js '' '' @ addr @ js '' | Base'' @ [10];
          cast3 = cast2 @ emoji @ js '' '' @ levelName (riskLevel report) @ js '' RISK (''
                    @ showInt (riskScore report) @ js ''/100)'' @ [10, 10];
          maxSummaryLen = 300;
          shortSummary =
            (if length (summary report) > maxSummaryLen
             then take (maxSummaryLen - 3) (summary report) @ js ''...''
             else summary report);
          cast4 = cast3 @ shortSummary @ [10, 10];
          cast5 =
            (if length (keyFindings report) > 0
             then cast4 @ joinWith [10] (map (\<lambda>f. [8226, 32] @ f) (take 3 (keyFindings report)))
                    @ [10, 10]
             else cast4);
          cast6 =
            (if length (topInteractions report) > 0
             then cast5 @ joinWith [10] (map interactionLine (take 2 (topInteractions report)))
                    @ [10, 10]
             else cast5)
      in cast6 @ disclaimer report)"

text \<open>
  The loop of \<open>truncateToByteLimit\<close>: drop the last ten code units while the text is
  longer than the bytes available. It need not end: with a negative \<open>availableBytes\<close>
  the empty string is still too long, and \<open>''.slice(0, -10)\<close> is the empty string again.
  \<open>None\<close> stands for a call that does not return.
\<close>

partial_function (option) truncateLoop :: "int \<Rightarrow> jsstring \<Rightarrow> jsstring option" where
  "truncateLoop availableBytes truncated =
     (if int (utf8Length truncated) > availableBytes
      then truncateLoop availableBytes (take (length truncated - 10) truncated)
      else Some truncated)"

declare truncateLoop.simps [code]

definition truncateToByteLimit :: "jsstring \<Rightarrow> nat \<Rightarrow> jsstring option" where
  "truncateToByteLimit text maxBytes =
     (let disclaimerTail = [10, 10] @ configDisclaimer;
          disclaimerBytes = utf8Length disclaimerTail;
          availableBytes = int maxBytes - int disclaimerBytes - 3
      in case truncateLoop availableBytes text of
           None \<Rightarrow> None
         | Some truncated \<Rightarrow>
             let lastNewline = lastIndexOf truncated 10;
                 cut = (if of_int lastNewline > fl (of_nat (length truncated) * fl (7 / 10))
                        then take (nat lastNewline) truncated
                        else truncated)
             in Some (cut @ js ''...'' @ disclaimerTail))"

definition formatForCast :: "WalletReport \<Rightarrow> jsstring option" where
  "formatForCast report =
     (let cast = assembleCast report
      in if utf8Length cast > maxReportLength
         then truncateToByteLimit cast maxReportLength
         else Some cast)"

section \<open>Analysis pipeline (index.ts, utils/address.ts)\<close>

text \<open>
  \<open>extractAddress\<close>: the first match of \<open>/0x[a-fA-F0-9]{40}/\<close>, passed through the
  library's \<open>getAddress\<close>, which returns the mixed-case checksummed form of an address
  or throws (\<open>None\<close>). \<open>getAddress\<close> is a parameter: it is code of the viem library.
  The non-strict \<open>isAddress\<close> test of the source accepts every match of the pattern.
\<close>

definition isHexDigit :: "nat \<Rightarrow> bool" where
  "isHexDigit c = ((48 \<le> c \<and> c \<le> 57) \<or> (97 \<le> c \<and> c \<le> 102) \<or> (65 \<le> c \<and> c \<le> 70))"

definition matchesAddress :: "jsstring \<Rightarrow> bool" where
  "matchesAddress s =
     (case s of
        a # b # rest \<Rightarrow> a = 48 \<and> b = 120 \<and> 40 \<le> length rest \<and> list_all isHexDigit (take 40 rest)
      | _ \<Rightarrow> False)"

fun firstAddress :: "jsstring \<Rightarrow> jsstring option" where
  "firstAddress [] = None"
| "firstAddress (c # cs) =
     (if matchesAddress (c # cs) then Some (take 42 (c # cs)) else firstAddress cs)"

definition extractAddress :: "(jsstring \<Rightarrow> jsstring option) \<Rightarrow> jsstring \<Rightarrow> jsstring option" where
  "extractAddress getAddress text =
     (case firstAddress text of
        None \<Rightarrow> None
      | Some raw \<Rightarrow> getAddress raw)"

text \<open>
  \<open>runAnalysis\<close>. Fetching the wallet data and generating the report call external
  services; their results are the parameters \<open>fetchWalletData\<close> and \<open>generateReport\<close>,
  \<open>None\<close> for a rejected promise. \<open>now\<close> is the clock reading when the report is cached.
\<close>

definition runAnalysis ::
  "(jsstring \<Rightarrow> WalletData option)
     \<Rightarrow> (WalletData \<Rightarrow> int \<Rightarrow> RiskLevel \<Rightarrow> RiskSignal list \<Rightarrow> WalletReport option)
     \<Rightarrow> int \<Rightarrow> jsstring \<Rightarrow> WalletReport TtlCache
     \<Rightarrow> WalletReport option \<times> WalletReport TtlCache" where
  "runAnalysis fetchWalletData generateReport now addr c =
     (case fetchWalletData addr of
        None \<Rightarrow> (None, c)
      | Some walletData \<Rightarrow>
          let r = computeRiskScore walletData
          in case generateReport walletData (totalScore r) (level r) (signals r) of
               None \<Rightarrow> (None, c)
             | Some report \<Rightarrow> (Some report, cacheSet now addr report c))"

text \<open>
  The handler of \<open>GET /analyze/:address\<close>: the cache is read at \<open>now\<close> and, on a miss,
  written at \<open>later\<close>.
\<close>

datatype analyzeResponse =
    InvalidWalletAddress
  | CachedReport WalletReport
  | FreshReport WalletReport
  | AnalysisFailed

definition analyzeEndpoint ::
  "(jsstring \<Rightarrow> jsstring option) \<Rightarrow> (jsstring \<Rightarrow> WalletData option)
     \<Rightarrow> (WalletData \<Rightarrow> int \<Rightarrow> RiskLevel \<Rightarrow> RiskSignal list \<Rightarrow> WalletReport option)
     \<Rightarrow> int \<Rightarrow> int \<Rightarrow> jsstring \<Rightarrow> WalletReport TtlCache
     \<Rightarrow> analyzeResponse \<times> WalletReport TtlCache" where
  "analyzeEndpoint getAddress fetchWalletData generateReport now later param c =
     (case extractAddress getAddress param of
        None \<Rightarrow> (InvalidWalletAddress, c)
      | Some addr \<Rightarrow>
          (case cacheGet now addr c of
             (Some cached, c1) \<Rightarrow> (CachedReport cached, c1)
           | (None, c1) \<Rightarrow>
               (case runAnalysis fetchWalletData generateReport later addr c1 of
                  (None, c2) \<Rightarrow> (AnalysisFailed, c2)
                | (Some report, c2) \<Rightarrow> (FreshReport report, c2))))"

text \<open>
  The report of tests/reportGenerator.test.ts, and the same report with three key
  findings of 400 characters each.
\<close>

definition sampleReport :: WalletReport where
  "sampleReport =
     \<lparr>reportAddress = js ''0x742d35Cc6634C0532925a3b844Bc9e7595f8b3a1'',
      riskLevel = LOW, riskScore = 15, confidence = 85, reportSignals = [],
      summary = js ''This wallet appears low-risk with normal DeFi activity patterns.'',
      keyFindings = [js ''Account age: 245 days'', js ''Total transactions: 347'',
                     js ''No flagged addresses''],
      topInteractions =
        [\<lparr>tiAddress = js ''0xaaaaaaaaaaaaaaaaaaaaaaaaaaaaaaaaaaaaaaaa'',
          tiLabel = Some (js ''Uniswap V3''), tiTxCount = 89\<rparr>,
         \<lparr>tiAddress = js ''0xbbbbbbbbbbbbbbbbbbbbbbbbbbbbbbbbbbbbbbbb'',
          tiLabel = None, tiTxCount = 34\<rparr>],
      recommendations = [js ''No significant red flags detected.''],
      disclaimer = configDisclaimer, analyzedAt = js ''2025-01-01T00:00:00.000Z'',
      responseTimeMs = 2500\<rparr>"

definition longReport :: WalletReport where
  "longReport = sampleReport\<lparr>keyFindings := replicate 3 (replicate 400 120)\<rparr>"

text \<open>
  An example run: the wallet data of the established wallet for whatever address is
  asked, a template report, and \<open>getAddress\<close> at the one address of the test suite,
  whose checksummed form tests/address.test.ts records.
\<close>

definition checksummedExample :: jsstring where
  "checksummedExample = js ''0x742D35Cc6634C0532925A3b844Bc9E7595F8B3A1''"

definition lowercaseExample :: jsstring where
  "lowercaseExample = js ''0x742d35cc6634c0532925a3b844bc9e7595f8b3a1''"

definition getAddressExample :: "jsstring \<Rightarrow> jsstring option" where
  "getAddressExample raw =
     (if toLowerCase raw = lowercaseExample then Some checksummedExample else None)"

definition fetchExample :: "jsstring \<Rightarrow> WalletData option" where
  "fetchExample a = Some ((establishedWallet [])\<lparr>address := a\<rparr>)"

definition templateReport ::
  "WalletData \<Rightarrow> int \<Rightarrow> RiskLevel \<Rightarrow> RiskSignal list \<Rightarrow> WalletReport option" where
  "templateReport d s l sigs =
     Some \<lparr>reportAddress = address d, riskLevel = l, riskScore = s, confidence = 85,
           reportSignals = sigs, summary = js ''Template summary.'', keyFindings = [],
           topInteractions = [], recommendations = [], disclaimer = configDisclaimer,
           analyzedAt = js ''2025-01-01T00:00:00.000Z'', responseTimeMs = 0\<rparr>"

definition emptyReportCache :: "WalletReport TtlCache" where
  "emptyReportCache = newTtlCache 300000"

definition exampleRun :: "WalletReport option \<times> WalletReport TtlCache" where
  "exampleRun = runAnalysis fetchExample templateReport 1000 checksummedExample emptyReportCache"

definition exampleRequest :: "analyzeResponse \<times> WalletReport TtlCache" where
  "exampleRequest =
     analyzeEndpoint getAddressExample fetchExample templateReport 0 1000 lowercaseExample
       emptyReportCache"


section \<open>Properties of the risk scoring engine\<close>

subsection \<open>Rounding error of one operation\<close>

lemma binexp_le:
  assumes "0 < x"
  shows "2 powi (binexp x) \<le> x"
proof (cases "1 \<le> x")
  case True
  define n where "n = nat \<lfloor>x\<rfloor>"
  have n1: "0 < n" using True by (simp add: n_def)
  from floorlog_bounds[of n 2] n1 have b: "2 ^ (floorlog 2 n - 1) \<le> n" by simp
  have fpos: "1 \<le> floorlog 2 n" using n1 by (simp add: floorlog_def)
  have "binexp x = int (floorlog 2 n - 1)" using True fpos by (simp add: binexp_def n_def)
  then have "2 powi (binexp x) = (2::rat) ^ (floorlog 2 n - 1)" by (simp add: power_int_def)
  also have "\<dots> = of_nat (2 ^ (floorlog 2 n - 1))" by simp
  also have "\<dots> \<le> of_nat n" using b of_nat_le_iff by blast
  also have "\<dots> \<le> x" using True by (simp add: n_def)
  finally show ?thesis .
next
  case False
  define m where "m = nat \<lceil>1 / x\<rceil>"
  define k where "k = floorlog 2 (m - 1)"
  have inv1: "1 < 1 / x" using False assms by simp
  then have "1 < \<lceil>1 / x\<rceil>" by (simp add: less_ceiling_iff)
  then have m2: "2 \<le> m" unfolding m_def by linarith
  from floorlog_bounds[of "m - 1" 2] m2 have "m - 1 < 2 ^ k" by (simp add: k_def)
  then have mk: "m \<le> 2 ^ k" by simp
  have "1 / x \<le> of_int \<lceil>1 / x\<rceil>" by simp
  also have "\<dots> = of_nat m" using inv1 by (simp add: m_def)
  also have "\<dots> \<le> of_nat (2 ^ k)" using mk of_nat_le_iff by blast
  finally have "1 / x \<le> 2 ^ k" by simp
  then have "1 \<le> 2 ^ k * x" using assms by (simp add: field_simps)
  then have "1 / 2 ^ k \<le> x" by (simp add: field_simps)
  moreover have "binexp x = - int k" using False by (simp add: binexp_def k_def m_def)
  then have "2 powi (binexp x) = 1 / (2::rat) ^ k" by (simp add: power_int_def field_simps)
  ultimately show ?thesis by simp
qed

lemma rne_err: "\<bar>of_int (rne q) - q\<bar> \<le> 1 / 2"
proof -
  have "of_int \<lfloor>q\<rfloor> \<le> q" "q < of_int \<lfloor>q\<rfloor> + 1" by linarith+
  then show ?thesis by (auto simp: rne_def Let_def)
qed

lemma rne_nonneg: "0 \<le> q \<Longrightarrow> 0 \<le> rne q"
  by (auto simp: rne_def Let_def)

lemma fl_err:
  assumes "0 < x"
  shows "\<bar>fl x - x\<bar> \<le> x / 2 ^ 53"
proof -
  define s :: rat where "s = 2 powi (binexp x - 52)"
  have spos: "0 < s" by (simp add: s_def)
  have s53: "s = 2 powi (binexp x) / 2 ^ 52"
    by (simp add: s_def power_int_diff)
  have flx: "fl x = of_int (rne (x / s)) * s"
    using assms by (simp add: fl_def Let_def s_def)
  have "fl x - x = (of_int (rne (x / s)) - x / s) * s"
    using spos by (simp add: flx left_diff_distrib)
  then have "\<bar>fl x - x\<bar> = \<bar>of_int (rne (x / s)) - x / s\<bar> * s"
    using spos by (simp add: abs_mult)
  also have "\<dots> \<le> 1 / 2 * s"
    using rne_err[of "x / s"] spos by (intro mult_right_mono) auto
  also have "\<dots> = 2 powi (binexp x) / 2 ^ 53" by (simp add: s53)
  also have "\<dots> \<le> x / 2 ^ 53" using binexp_le[OF assms] by (simp add: divide_right_mono)
  finally show ?thesis .
qed

lemma fl_nonneg: "0 \<le> x \<Longrightarrow> 0 \<le> fl x"
  by (cases "x = 0") (auto simp: fl_def Let_def intro!: mult_nonneg_nonneg rne_nonneg divide_nonneg_pos)

lemma fl_upper: "0 \<le> x \<Longrightarrow> fl x \<le> x * (1 + 1 / 2 ^ 53)"
proof (cases "x = 0")
  case True then show ?thesis by (simp add: fl_def)
next
  case False
  assume "0 \<le> x"
  with False have "0 < x" by simp
  from fl_err[OF this] have "fl x - x \<le> x / 2 ^ 53" by linarith
  then show ?thesis by (simp add: algebra_simps)
qed

lemma fl_lower: "0 \<le> x \<Longrightarrow> x * (1 - 1 / 2 ^ 53) \<le> fl x"
proof (cases "x = 0")
  case True then show ?thesis by (simp add: fl_def)
next
  case False
  assume "0 \<le> x"
  with False have "0 < x" by simp
  from fl_err[OF this] have "x - fl x \<le> x / 2 ^ 53" by linarith
  then show ?thesis by (simp add: algebra_simps)
qed

subsection \<open>Rounding error of the weighted total\<close>

lemma Uc_ge1: "1 \<le> Uc" by (simp add: Uc_def)
lemma Lc_bounds: "0 < Lc" "Lc \<le> 1" by (simp_all add: Lc_def)

lemma fl_upper': "0 \<le> x \<Longrightarrow> fl x \<le> x * Uc" unfolding Uc_def by (rule fl_upper)
lemma fl_lower': "0 \<le> x \<Longrightarrow> x * Lc \<le> fl x" unfolding Lc_def by (rule fl_lower)

lemma grow: "0 \<le> (a::rat) \<Longrightarrow> a \<le> a * Uc"
  using Uc_ge1 by (simp add: mult_le_cancel_left1)

lemma shrink: "0 \<le> (a::rat) \<Longrightarrow> a * Lc \<le> a"
  using Lc_bounds by (simp add: mult_le_cancel_left1 mult_left_le)

lemma step_upper:
  assumes "0 \<le> a" "0 \<le> p"
  shows "fl (a + fl p) \<le> (a + p) * Uc ^ 2" and "0 \<le> fl (a + fl p)"
proof -
  have fp: "0 \<le> fl p" using assms fl_nonneg by simp
  have "fl (a + fl p) \<le> (a + fl p) * Uc" using fl_upper' assms fp by simp
  also have "a + fl p \<le> a * Uc + p * Uc"
    using grow[OF assms(1)] fl_upper'[OF assms(2)] by linarith
  finally show "fl (a + fl p) \<le> (a + p) * Uc ^ 2"
    using Uc_ge1 by (simp add: power2_eq_square algebra_simps mult_right_mono)
  show "0 \<le> fl (a + fl p)" using fl_nonneg assms fp by simp
qed

lemma step_lower:
  assumes "0 \<le> a" "0 \<le> p"
  shows "(a + p) * Lc ^ 2 \<le> fl (a + fl p)"
proof -
  have fp: "0 \<le> fl p" using assms fl_nonneg by simp
  have "a * Lc + p * Lc \<le> a + fl p"
    using shrink[OF assms(1)] fl_lower'[OF assms(2)] by linarith
  then have "(a * Lc + p * Lc) * Lc \<le> (a + fl p) * Lc"
    using Lc_bounds by (simp add: mult_right_mono)
  also have "\<dots> \<le> fl (a + fl p)" using fl_lower' assms fp by simp
  finally show ?thesis by (simp add: power2_eq_square algebra_simps)
qed

lemma foldl_acc_bounds:
  assumes "\<forall>s \<in> set sigs. 0 \<le> score s \<and> 0 \<le> weight s" "0 \<le> a"
  shows "foldl addWeighted a sigs \<le> (a + (\<Sum>s\<leftarrow>sigs. of_int (score s) * weight s)) * Uc ^ (2 * length sigs)
       \<and> (a + (\<Sum>s\<leftarrow>sigs. of_int (score s) * weight s)) * Lc ^ (2 * length sigs) \<le> foldl addWeighted a sigs"
  using assms
proof (induction sigs arbitrary: a)
  case Nil
  then show ?case by simp
next
  case (Cons x xs)
  define p where "p = of_int (score x) * weight x"
  define S where "S = (\<Sum>s\<leftarrow>xs. of_int (score s) * weight s)"
  define n where "n = 2 * length xs"
  have p0: "0 \<le> p" using Cons.prems by (simp add: p_def)
  have S0: "0 \<le> S" unfolding S_def using Cons.prems by (intro sum_list_nonneg) auto
  have a0: "0 \<le> a" using Cons.prems by simp
  have a'0: "0 \<le> addWeighted a x" unfolding addWeighted_def using step_upper(2)[OF a0 p0] by (simp add: p_def)
  have up: "addWeighted a x \<le> (a + p) * Uc ^ 2" unfolding addWeighted_def using step_upper(1)[OF a0 p0] by (simp add: p_def)
  have lo: "(a + p) * Lc ^ 2 \<le> addWeighted a x" unfolding addWeighted_def using step_lower[OF a0 p0] by (simp add: p_def)
  from Cons.IH[of "addWeighted a x"] Cons.prems a'0
  have IH: "foldl addWeighted (addWeighted a x) xs \<le> (addWeighted a x + S) * Uc ^ n"
           "(addWeighted a x + S) * Lc ^ n \<le> foldl addWeighted (addWeighted a x) xs"
    by (simp_all add: S_def n_def)
  have U2: "1 \<le> Uc ^ 2" using Uc_ge1 by (simp add: one_le_power)
  have L2: "Lc ^ 2 \<le> 1" "0 \<le> Lc ^ 2" using Lc_bounds by (simp_all add: power_le_one)
  have Un: "0 \<le> Uc ^ n" using Uc_ge1 by simp
  have Ln: "0 \<le> Lc ^ n" using Lc_bounds by simp
  have "addWeighted a x + S \<le> (a + p) * Uc ^ 2 + S * Uc ^ 2"
    using up mult_left_mono[OF U2 S0] by simp
  then have "(addWeighted a x + S) * Uc ^ n \<le> ((a + p) * Uc ^ 2 + S * Uc ^ 2) * Uc ^ n"
    using Un by (rule mult_right_mono)
  also have "\<dots> = (a + p + S) * Uc ^ (2 + n)"
    by (simp add: power_add power2_eq_square algebra_simps)
  finally have A: "foldl addWeighted (addWeighted a x) xs \<le> (a + p + S) * Uc ^ (2 + n)"
    by (rule order_trans[OF IH(1)])
  have "(a + p) * Lc ^ 2 + S * Lc ^ 2 \<le> addWeighted a x + S"
    using lo mult_left_mono[OF L2(1) S0] by simp
  then have "((a + p) * Lc ^ 2 + S * Lc ^ 2) * Lc ^ n \<le> (addWeighted a x + S) * Lc ^ n"
    using Ln by (rule mult_right_mono)
  moreover have "((a + p) * Lc ^ 2 + S * Lc ^ 2) * Lc ^ n = (a + p + S) * Lc ^ (2 + n)"
    by (simp add: power_add power2_eq_square algebra_simps)
  ultimately have B: "(a + p + S) * Lc ^ (2 + n) \<le> foldl addWeighted (addWeighted a x) xs"
    using IH(2) by linarith
  have "2 * length (x # xs) = 2 + n" by (simp add: n_def)
  moreover have "(\<Sum>s\<leftarrow>x # xs. of_int (score s) * weight s) = p + S" by (simp add: p_def S_def)
  ultimately show ?case using A B by (simp add: add.assoc)
qed

subsection \<open>The values each signal can take\<close>

lemma age_cases: "score (scoreAccountAge d) \<in> {70, 90, 60, 30, 10}"
  by (simp add: scoreAccountAge_def Let_def split: option.splits)

lemma volume_cases: "score (scoreTransactionVolume d) \<in> {50, 60, 30, 40, 10}"
  by (simp add: scoreTransactionVolume_def Let_def)

lemma scam_cases: "score (scoreScamInteractions d) \<in> {0, 40, 80, 100}"
proof -
  have "length (scamFlags d) = 0 \<or> length (scamFlags d) = 1 \<or> length (scamFlags d) = 2
        \<or> 3 \<le> length (scamFlags d)" by linarith
  then show ?thesis by (auto simp: scoreScamInteractions_def Let_def min_def)
qed

lemma transfers_cases: "score (scoreLargeTransfers d) \<in> {20, 80, 50, 5}"
  by (simp add: scoreLargeTransfers_def Let_def)

lemma approvals_cases: "score (scoreContractApprovals d) \<in> {70, 50, 15, 5}"
  by (simp add: scoreContractApprovals_def Let_def)

lemma funding_cases: "score (scoreFundingSource d) \<in> {40, 90, 10}"
  by (simp add: scoreFundingSource_def Let_def)

lemma token_cases: "score (scoreTokenDiversity d) \<in> {60, 30, 10, 15}"
  by (simp add: scoreTokenDiversity_def Let_def)

lemma weights:
  "weight (scoreAccountAge d) = fl (1 / 10)"
  "weight (scoreTransactionVolume d) = fl (3 / 20)"
  "weight (scoreScamInteractions d) = fl (1 / 4)"
  "weight (scoreLargeTransfers d) = fl (3 / 20)"
  "weight (scoreContractApprovals d) = fl (3 / 20)"
  "weight (scoreFundingSource d) = fl (1 / 10)"
  "weight (scoreTokenDiversity d) = fl (1 / 10)"
  by (simp_all add: scoreAccountAge_def scoreTransactionVolume_def scoreScamInteractions_def
      scoreLargeTransfers_def scoreContractApprovals_def scoreFundingSource_def
      scoreTokenDiversity_def Let_def)

lemma boost_cases: "scamBoost d \<in> {20, 15, 10, 0}"
  by (simp add: scamBoost_def)

lemma Uc16: "Uc ^ 16 \<le> 1001 / 1000"
  by (simp add: Uc_def power_divide)

lemma Lc16: "999 / 1000 \<le> Lc ^ 16"
  by (simp add: Lc_def power_divide)

lemma scores_nonneg:
  "0 \<le> score (scoreAccountAge d)" "0 \<le> score (scoreTransactionVolume d)"
  "0 \<le> score (scoreScamInteractions d)" "0 \<le> score (scoreLargeTransfers d)"
  "0 \<le> score (scoreContractApprovals d)" "0 \<le> score (scoreFundingSource d)"
  "0 \<le> score (scoreTokenDiversity d)"
proof -
  show "0 \<le> score (scoreAccountAge d)" using age_cases[of d] by auto
  show "0 \<le> score (scoreTransactionVolume d)" using volume_cases[of d] by auto
  show "0 \<le> score (scoreScamInteractions d)" using scam_cases[of d] by auto
  show "0 \<le> score (scoreLargeTransfers d)" using transfers_cases[of d] by auto
  show "0 \<le> score (scoreContractApprovals d)" using approvals_cases[of d] by auto
  show "0 \<le> score (scoreFundingSource d)" using funding_cases[of d] by auto
  show "0 \<le> score (scoreTokenDiversity d)" using token_cases[of d] by auto
qed

lemma signals_nonneg: "\<forall>s \<in> set (allSignals d). 0 \<le> score s \<and> 0 \<le> weight s"
  by (simp add: allSignals_def scores_nonneg weights fl_nonneg)

lemma weighted_term:
  assumes "0 \<le> (s::int)" "0 \<le> (c::rat)"
  shows "of_int s * fl c \<le> of_int s * c * Uc" "of_int s * c * Lc \<le> of_int s * fl c"
  using mult_left_mono[OF fl_upper'[OF assms(2)], of "of_int s"]
        mult_left_mono[OF fl_lower'[OF assms(2)], of "of_int s"] assms(1)
  by (simp_all add: mult.assoc)

lemma weightedSum_bounds:
  "weightedSum (allSignals d) \<le> (nominalTotal d - of_int (scamBoost d)) * Uc ^ 15"
  "(nominalTotal d - of_int (scamBoost d)) * Lc ^ 15 \<le> weightedSum (allSignals d)"
proof -
  define Sw where "Sw = (\<Sum>s\<leftarrow>allSignals d. of_int (score s) * weight s)"
  define N where "N = nominalTotal d - of_int (scamBoost d)"
  from foldl_acc_bounds[OF signals_nonneg, of 0 d]
  have f: "weightedSum (allSignals d) \<le> Sw * Uc ^ 14" "Sw * Lc ^ 14 \<le> weightedSum (allSignals d)"
    by (simp_all add: weightedSum_def Sw_def allSignals_def)
  note t = weighted_term[OF scores_nonneg(1)[of d], of "1 / 10"]
           weighted_term[OF scores_nonneg(2)[of d], of "3 / 20"]
           weighted_term[OF scores_nonneg(3)[of d], of "1 / 4"]
           weighted_term[OF scores_nonneg(4)[of d], of "3 / 20"]
           weighted_term[OF scores_nonneg(5)[of d], of "3 / 20"]
           weighted_term[OF scores_nonneg(6)[of d], of "1 / 10"]
           weighted_term[OF scores_nonneg(7)[of d], of "1 / 10"]
  have Sw_eq: "Sw = of_int (score (scoreAccountAge d)) * fl (1 / 10)
      + of_int (score (scoreTransactionVolume d)) * fl (3 / 20)
      + of_int (score (scoreScamInteractions d)) * fl (1 / 4)
      + of_int (score (scoreLargeTransfers d)) * fl (3 / 20)
      + of_int (score (scoreContractApprovals d)) * fl (3 / 20)
      + of_int (score (scoreFundingSource d)) * fl (1 / 10)
      + of_int (score (scoreTokenDiversity d)) * fl (1 / 10)"
    by (simp add: Sw_def allSignals_def weights)
  have N_eq: "N = of_int (score (scoreAccountAge d)) * (1 / 10)
      + of_int (score (scoreTransactionVolume d)) * (3 / 20)
      + of_int (score (scoreScamInteractions d)) * (1 / 4)
      + of_int (score (scoreLargeTransfers d)) * (3 / 20)
      + of_int (score (scoreContractApprovals d)) * (3 / 20)
      + of_int (score (scoreFundingSource d)) * (1 / 10)
      + of_int (score (scoreTokenDiversity d)) * (1 / 10)"
    by (simp add: N_def nominalTotal_def nominalOthers_def)
  have SwU: "Sw \<le> N * Uc" unfolding Sw_eq N_eq distrib_right
    using t(1) t(3) t(5) t(7) t(9) t(11) t(13) by linarith
  have SwL: "N * Lc \<le> Sw" unfolding Sw_eq N_eq distrib_right
    using t(2) t(4) t(6) t(8) t(10) t(12) t(14) by linarith
  have U15: "Uc * Uc ^ 14 = Uc ^ 15" and L15: "Lc * Lc ^ 14 = Lc ^ 15"
    using power_add[of Uc 1 14] power_add[of Lc 1 14] by simp_all
  have U14: "0 \<le> Uc ^ 14" using Uc_ge1 by simp
  have L14: "0 \<le> Lc ^ 14" using Lc_bounds by simp
  have "Sw * Uc ^ 14 \<le> N * Uc * Uc ^ 14"
    using SwU U14 by (rule mult_right_mono)
  also have "\<dots> = N * Uc ^ 15" using U15 by (simp add: mult.assoc)
  finally show "weightedSum (allSignals d) \<le> (nominalTotal d - of_int (scamBoost d)) * Uc ^ 15"
    unfolding N_def by (rule order_trans[OF f(1)])
  have "N * Lc * Lc ^ 14 \<le> Sw * Lc ^ 14"
    using SwL L14 by (rule mult_right_mono)
  moreover have "N * Lc * Lc ^ 14 = N * Lc ^ 15" using L15 by (simp add: mult.assoc)
  ultimately show "(nominalTotal d - of_int (scamBoost d)) * Lc ^ 15 \<le> weightedSum (allSignals d)"
    unfolding N_def using f(2) by linarith
qed

lemma boost_nonneg: "0 \<le> scamBoost d" by (simp add: scamBoost_def)

lemma weightedSum_nonneg: "0 \<le> weightedSum (allSignals d)"
proof -
  have "\<forall>s \<in> set sigs. 0 \<le> score s \<and> 0 \<le> weight s \<Longrightarrow> 0 \<le> a \<Longrightarrow> 0 \<le> foldl addWeighted a sigs"
    for sigs a
  proof (induction sigs arbitrary: a)
    case Nil then show ?case by simp
  next
    case (Cons x xs)
    have "0 \<le> addWeighted a x" unfolding addWeighted_def
      using Cons.prems by (intro fl_nonneg add_nonneg_nonneg mult_nonneg_nonneg) auto
    then show ?case using Cons by simp
  qed
  from this[OF signals_nonneg, of 0 d] show ?thesis by (simp add: weightedSum_def)
qed

lemma rawScore_bounds:
  "rawScore d \<le> nominalTotal d * Uc ^ 16" "nominalTotal d * Lc ^ 16 \<le> rawScore d"
proof -
  define b :: rat where "b = of_int (scamBoost d)"
  define ws where "ws = weightedSum (allSignals d)"
  define E where "E = nominalTotal d"
  have b0: "0 \<le> b" using boost_nonneg by (simp add: b_def)
  have ws0: "0 \<le> ws" using weightedSum_nonneg by (simp add: ws_def)
  have U15: "1 \<le> Uc ^ 15" using Uc_ge1 by (simp add: one_le_power)
  have L15: "Lc ^ 15 \<le> 1" and L15': "0 \<le> Lc ^ 15" using Lc_bounds by (simp_all add: power_le_one)
  have w: "ws \<le> (E - b) * Uc ^ 15" "(E - b) * Lc ^ 15 \<le> ws"
    using weightedSum_bounds[of d] by (simp_all add: ws_def E_def b_def)
  have "ws + b \<le> (E - b) * Uc ^ 15 + b * Uc ^ 15"
    using w(1) mult_left_mono[OF U15 b0] by simp
  also have "\<dots> = E * Uc ^ 15" by (simp add: algebra_simps)
  finally have s1: "ws + b \<le> E * Uc ^ 15" .
  have "(E - b) * Lc ^ 15 + b * Lc ^ 15 \<le> ws + b"
    using w(2) mult_left_mono[OF L15 b0] by simp
  moreover have "(E - b) * Lc ^ 15 + b * Lc ^ 15 = E * Lc ^ 15" by (simp add: algebra_simps)
  ultimately have s2: "E * Lc ^ 15 \<le> ws + b" by simp
  have p: "Uc ^ 15 * Uc = Uc ^ 16" "Lc ^ 15 * Lc = Lc ^ 16"
    using power_add[of Uc 15 1] power_add[of Lc 15 1] by simp_all
  have "rawScore d \<le> (ws + b) * Uc"
    unfolding rawScore_def ws_def[symmetric] b_def[symmetric] using ws0 b0 by (intro fl_upper') simp
  also have "\<dots> \<le> E * Uc ^ 15 * Uc" using s1 Uc_ge1 by (intro mult_right_mono) auto
  also have "\<dots> = E * Uc ^ 16" using p(1) by (simp add: mult.assoc)
  finally show "rawScore d \<le> nominalTotal d * Uc ^ 16" by (simp add: E_def)
  have "E * Lc ^ 15 * Lc \<le> (ws + b) * Lc" using s2 Lc_bounds by (intro mult_right_mono) auto
  also have "\<dots> \<le> rawScore d"
    unfolding rawScore_def ws_def[symmetric] b_def[symmetric] using ws0 b0 by (intro fl_lower') simp
  finally have "E * Lc ^ 15 * Lc \<le> rawScore d" .
  then have "E * (Lc ^ 15 * Lc) \<le> rawScore d" by (simp only: mult.assoc)
  then show "nominalTotal d * Lc ^ 16 \<le> rawScore d" unfolding p(2) E_def .
qed

lemma nominalTotal_range: "0 \<le> nominalTotal d" "nominalTotal d \<le> 121"
proof -
  have a: "score (scoreAccountAge d) \<le> 100" using age_cases[of d] by auto
  have v: "score (scoreTransactionVolume d) \<le> 100" using volume_cases[of d] by auto
  have s: "score (scoreScamInteractions d) \<le> 100" using scam_cases[of d] by auto
  have t: "score (scoreLargeTransfers d) \<le> 100" using transfers_cases[of d] by auto
  have c: "score (scoreContractApprovals d) \<le> 100" using approvals_cases[of d] by auto
  have f: "score (scoreFundingSource d) \<le> 100" using funding_cases[of d] by auto
  have k: "score (scoreTokenDiversity d) \<le> 100" using token_cases[of d] by auto
  have b: "scamBoost d \<le> 20" by (simp add: scamBoost_def)
  show "0 \<le> nominalTotal d"
    unfolding nominalTotal_def nominalOthers_def
    using scores_nonneg[of d] boost_nonneg[of d] by simp
  show "nominalTotal d \<le> 121"
    unfolding nominalTotal_def nominalOthers_def
    using a v s t c f k b
    by (simp add: of_int_le_iff[where 'a=rat, of _ 100, simplified] of_int_le_iff[where 'a=rat, of _ 20, simplified])
qed

lemma rawScore_near: "\<bar>rawScore d - nominalTotal d\<bar> \<le> 1 / 8"
proof -
  define E where "E = nominalTotal d"
  have E: "0 \<le> E" "E \<le> 121" using nominalTotal_range[of d] by (simp_all add: E_def)
  have "rawScore d \<le> E * Uc ^ 16" using rawScore_bounds(1)[of d] by (simp add: E_def)
  also have "\<dots> \<le> E * (1001 / 1000)" using Uc16 E(1) by (rule mult_left_mono)
  finally have up: "rawScore d \<le> E + 1 / 8" using E by simp
  have "E * (999 / 1000) \<le> E * Lc ^ 16" using Lc16 E(1) by (rule mult_left_mono)
  also have "\<dots> \<le> rawScore d" using rawScore_bounds(2)[of d] by (simp add: E_def)
  finally have lo: "E - 1 / 8 \<le> rawScore d" using E by simp
  from up lo show ?thesis unfolding E_def by linarith
qed

lemma five_dvd:
  "5 dvd score (scoreAccountAge d)" "5 dvd score (scoreTransactionVolume d)"
  "5 dvd score (scoreScamInteractions d)" "5 dvd score (scoreLargeTransfers d)"
  "5 dvd score (scoreContractApprovals d)" "5 dvd score (scoreFundingSource d)"
  "5 dvd score (scoreTokenDiversity d)"
proof -
  show "5 dvd score (scoreAccountAge d)" using age_cases[of d] by auto
  show "5 dvd score (scoreTransactionVolume d)" using volume_cases[of d] by auto
  show "5 dvd score (scoreScamInteractions d)" using scam_cases[of d] by auto
  show "5 dvd score (scoreLargeTransfers d)" using transfers_cases[of d] by auto
  show "5 dvd score (scoreContractApprovals d)" using approvals_cases[of d] by auto
  show "5 dvd score (scoreFundingSource d)" using funding_cases[of d] by auto
  show "5 dvd score (scoreTokenDiversity d)" using token_cases[of d] by auto
qed

lemma nominalTotal_quarters: "\<exists>k::int. nominalTotal d = of_int k / 4"
proof -
  from five_dvd[of d] obtain a v s t c f k where
    e: "score (scoreAccountAge d) = 5 * a" "score (scoreTransactionVolume d) = 5 * v"
       "score (scoreScamInteractions d) = 5 * s" "score (scoreLargeTransfers d) = 5 * t"
       "score (scoreContractApprovals d) = 5 * c" "score (scoreFundingSource d) = 5 * f"
       "score (scoreTokenDiversity d) = 5 * k"
    unfolding dvd_def by blast
  have "nominalTotal d = of_int (2 * a + 3 * v + 5 * s + 3 * t + 3 * c + 2 * f + 2 * k + 4 * scamBoost d) / 4"
    by (simp add: nominalTotal_def nominalOthers_def e field_simps)
  then show ?thesis by blast
qed

lemma round_lower:
  assumes "of_int n - 1 / 2 < nominalTotal d"
  shows "n \<le> jsround (rawScore d)"
proof -
  obtain k :: int where k: "nominalTotal d = of_int k / 4" using nominalTotal_quarters by blast
  from assms have "(of_int (4 * n - 2) :: rat) < of_int k" unfolding k by (simp add: field_simps)
  then have "4 * n - 2 < k" by (simp only: of_int_less_iff)
  then have "4 * n - 1 \<le> k" by simp
  then have "(of_int (4 * n - 1) :: rat) \<le> of_int k" by (simp only: of_int_le_iff)
  then have "of_int n - 1 / 4 \<le> nominalTotal d" unfolding k by (simp add: field_simps)
  with rawScore_near[of d] have "of_int n \<le> rawScore d + 1 / 2" by linarith
  then show ?thesis unfolding jsround_def by (simp add: le_floor_iff)
qed

lemma round_upper:
  assumes "nominalTotal d < of_int n + 1 / 2"
  shows "jsround (rawScore d) \<le> n"
proof -
  obtain k :: int where k: "nominalTotal d = of_int k / 4" using nominalTotal_quarters by blast
  from assms have "(of_int k :: rat) < of_int (4 * n + 2)" unfolding k by (simp add: field_simps)
  then have "k < 4 * n + 2" by (simp only: of_int_less_iff)
  then have "k \<le> 4 * n + 1" by simp
  then have "(of_int k :: rat) \<le> of_int (4 * n + 1)" by (simp only: of_int_le_iff)
  then have "nominalTotal d \<le> of_int n + 1 / 4" unfolding k by (simp add: field_simps)
  with rawScore_near[of d] have "rawScore d + 1 / 2 < of_int n + 1" by linarith
  then show ?thesis unfolding jsround_def by (simp add: floor_le_iff)
qed

subsection \<open>Scores of the example wallets\<close>

lemma est3: 
  "score (scoreAccountAge (establishedWallet threeFlags)) = 10"
  "score (scoreTransactionVolume (establishedWallet threeFlags)) = 10"
  "score (scoreScamInteractions (establishedWallet threeFlags)) = 100"
  "score (scoreLargeTransfers (establishedWallet threeFlags)) = 5"
  "score (scoreContractApprovals (establishedWallet threeFlags)) = 5"
  "score (scoreFundingSource (establishedWallet threeFlags)) = 10"
  "score (scoreTokenDiversity (establishedWallet threeFlags)) = 10"
  "scamBoost (establishedWallet threeFlags) = 20"
  by code_simp+

lemma est1: 
  "score (scoreAccountAge (establishedWallet [mixerFlag])) = 10"
  "score (scoreTransactionVolume (establishedWallet [mixerFlag])) = 10"
  "score (scoreScamInteractions (establishedWallet [mixerFlag])) = 40"
  "score (scoreLargeTransfers (establishedWallet [mixerFlag])) = 5"
  "score (scoreContractApprovals (establishedWallet [mixerFlag])) = 5"
  "score (scoreFundingSource (establishedWallet [mixerFlag])) = 10"
  "score (scoreTokenDiversity (establishedWallet [mixerFlag])) = 10"
  "scamBoost (establishedWallet [mixerFlag]) = 10"
  by code_simp+

lemma fresh3: 
  "score (scoreAccountAge (freshWallet 2 2 threeFlags)) = 90"
  "score (scoreTransactionVolume (freshWallet 2 2 threeFlags)) = 60"
  "score (scoreScamInteractions (freshWallet 2 2 threeFlags)) = 100"
  "score (scoreLargeTransfers (freshWallet 2 2 threeFlags)) = 20"
  "score (scoreContractApprovals (freshWallet 2 2 threeFlags)) = 5"
  "score (scoreFundingSource (freshWallet 2 2 threeFlags)) = 40"
  "score (scoreTokenDiversity (freshWallet 2 2 threeFlags)) = 15"
  "scamBoost (freshWallet 2 2 threeFlags) = 20"
  by code_simp+

lemma fresh1: 
  "score (scoreAccountAge (freshWallet 3 15 [mixerFlag])) = 60"
  "score (scoreTransactionVolume (freshWallet 3 15 [mixerFlag])) = 60"
  "score (scoreScamInteractions (freshWallet 3 15 [mixerFlag])) = 40"
  "score (scoreLargeTransfers (freshWallet 3 15 [mixerFlag])) = 20"
  "score (scoreContractApprovals (freshWallet 3 15 [mixerFlag])) = 5"
  "score (scoreFundingSource (freshWallet 3 15 [mixerFlag])) = 40"
  "score (scoreTokenDiversity (freshWallet 3 15 [mixerFlag])) = 15"
  "scamBoost (freshWallet 3 15 [mixerFlag]) = 10"
  by code_simp+

subsection \<open>Score and tier from the exact formula\<close>

lemma computeRiskScore_eq:
  "computeRiskScore d =
     \<lparr>totalScore = max 0 (min 100 (jsround (rawScore d))),
      level = levelOf (max 0 (min 100 (jsround (rawScore d)))),
      signals = allSignals d\<rparr>"
  by (simp add: computeRiskScore_def Let_def rawScore_def allSignals_def)

lemma jsround_mono: "x \<le> y \<Longrightarrow> jsround x \<le> jsround y"
  unfolding jsround_def by (intro floor_mono) simp

lemma jsround_of_int: "jsround (of_int n) = n"
  unfolding jsround_def by linarith

lemma jsround_clamp: "jsround (max 0 (min 100 x)) = max 0 (min 100 (jsround x))"
proof -
  have a: "jsround (min 100 x) = min 100 (jsround x)"
    using jsround_mono[of x 100] jsround_mono[of 100 x] jsround_of_int[of 100]
    by (cases "x \<le> 100") (auto simp: min_def)
  have b: "jsround (max 0 y) = max 0 (jsround y)" for y
    using jsround_mono[of y 0] jsround_mono[of 0 y] jsround_of_int[of 0]
    by (cases "y \<le> 0") (auto simp: max_def)
  show ?thesis by (simp add: a b)
qed

lemma fl_weights:
  "fl (1 / 10) = 3602879701896397 / 36028797018963968"
  "fl (3 / 20) = 5404319552844595 / 36028797018963968"
  "fl (1 / 4) = 1 / 4"
  by code_simp+

lemma weights_float_sum:
  "foldl (\<lambda>acc s. fl (acc + weight s)) 0 (allSignals d) = 1"
proof -
  have s:
    "fl (0 + 3602879701896397 / 36028797018963968) = 3602879701896397 / 36028797018963968"
    "fl (3602879701896397 / 36028797018963968 + 5404319552844595 / 36028797018963968) = 1 / 4"
    "fl (1 / 4 + 1 / 4) = 1 / 2"
    "fl (1 / 2 + 5404319552844595 / 36028797018963968) = 5854679515581645 / 9007199254740992"
    "fl (5854679515581645 / 9007199254740992 + 5404319552844595 / 36028797018963968)
       = 3602879701896397 / 4503599627370496"
    "fl (3602879701896397 / 4503599627370496 + 3602879701896397 / 36028797018963968)
       = 8106479329266893 / 9007199254740992"
    "fl (8106479329266893 / 9007199254740992 + 3602879701896397 / 36028797018963968) = 1"
    by code_simp+
  show ?thesis
    by (simp only: allSignals_def foldl_Cons foldl_Nil weights fl_weights s)
qed

lemma weights_exact_sum: "sum_list (map weight (allSignals d)) = 1"
  by (simp add: allSignals_def weights fl_weights)

lemma total_between:
  assumes "of_int lo - 1 / 2 < nominalTotal d" "nominalTotal d < of_int hi + 1 / 2"
    "0 \<le> lo" "hi \<le> 100"
  shows "lo \<le> totalScore (computeRiskScore d)" "totalScore (computeRiskScore d) \<le> hi"
  using round_lower[OF assms(1)] round_upper[OF assms(2)] assms(3,4)
  by (simp_all add: computeRiskScore_eq)

lemma level_eq: "level (computeRiskScore d) = levelOf (totalScore (computeRiskScore d))"
  by (simp add: computeRiskScore_eq)

lemma tier_LOW:
  assumes "nominalTotal d < 61 / 2"
  shows "totalScore (computeRiskScore d) \<le> 30" "level (computeRiskScore d) = LOW"
proof -
  have "jsround (rawScore d) \<le> 30" using round_upper[of d 30] assms by simp
  then show "totalScore (computeRiskScore d) \<le> 30" by (simp add: computeRiskScore_eq)
  then show "level (computeRiskScore d) = LOW" by (simp add: level_eq levelOf_def)
qed

lemma tier_MEDIUM:
  assumes "61 / 2 < nominalTotal d" "nominalTotal d < 121 / 2"
  shows "30 < totalScore (computeRiskScore d)" "totalScore (computeRiskScore d) \<le> 60"
    "level (computeRiskScore d) = MEDIUM"
proof -
  have "31 \<le> jsround (rawScore d)" using round_lower[of 31 d] assms by simp
  moreover have "jsround (rawScore d) \<le> 60" using round_upper[of d 60] assms by simp
  ultimately show a: "30 < totalScore (computeRiskScore d)" "totalScore (computeRiskScore d) \<le> 60"
    by (simp_all add: computeRiskScore_eq)
  then show "level (computeRiskScore d) = MEDIUM" by (simp add: level_eq levelOf_def)
qed

lemma tier_HIGH:
  assumes "121 / 2 < nominalTotal d"
  shows "60 < totalScore (computeRiskScore d)" "level (computeRiskScore d) = HIGH"
proof -
  have "61 \<le> jsround (rawScore d)" using round_lower[of 61 d] assms by simp
  then show a: "60 < totalScore (computeRiskScore d)" by (simp add: computeRiskScore_eq)
  then show "level (computeRiskScore d) = HIGH" by (simp add: level_eq levelOf_def)
qed

lemma others_lower: "6 \<le> nominalOthers d"
proof -
  have "10 \<le> score (scoreAccountAge d)" using age_cases[of d] by auto
  moreover have "10 \<le> score (scoreTransactionVolume d)" using volume_cases[of d] by auto
  moreover have "5 \<le> score (scoreLargeTransfers d)" using transfers_cases[of d] by auto
  moreover have "5 \<le> score (scoreContractApprovals d)" using approvals_cases[of d] by auto
  moreover have "10 \<le> score (scoreFundingSource d)" using funding_cases[of d] by auto
  moreover have "10 \<le> score (scoreTokenDiversity d)" using token_cases[of d] by auto
  ultimately show ?thesis
    unfolding nominalOthers_def
    by (simp add: of_int_le_iff[where 'a=rat, of 10, simplified] of_int_le_iff[where 'a=rat, of 5, simplified])
qed

lemma three_flags:
  assumes "3 \<le> length (scamFlags d)"
  shows "score (scoreScamInteractions d) = 100" "scamBoost d = 20"
  using assms by (auto simp: scoreScamInteractions_def scamBoost_def Let_def)

lemma one_flag:
  assumes "length (scamFlags d) = 1"
  shows "score (scoreScamInteractions d) = 40" "scamBoost d = 10"
  using assms by (auto simp: scoreScamInteractions_def scamBoost_def Let_def)

subsection \<open>Claims about the score\<close>

text \<open>
  C1 (as amended). For every wallet snapshot with at least three scam flags the scam
  signal and the corroboration boost contribute 25 + 20 points, so the score is at least
  51 and the tier is MEDIUM or HIGH, never LOW. The tier is HIGH with a score above 60
  when the other six signals contribute more than 15.5 weighted points, and MEDIUM with a
  score of at most 60 when they contribute less than 15.5.
\<close>

theorem three_flags_score:
  assumes "3 \<le> length (scamFlags d)"
  shows "51 \<le> totalScore (computeRiskScore d)
       \<and> level (computeRiskScore d) \<noteq> LOW
       \<and> (31 / 2 < nominalOthers d \<longrightarrow>
            level (computeRiskScore d) = HIGH \<and> 60 < totalScore (computeRiskScore d))
       \<and> (nominalOthers d < 31 / 2 \<longrightarrow>
            level (computeRiskScore d) = MEDIUM \<and> totalScore (computeRiskScore d) \<le> 60)"
proof -
  have E: "nominalTotal d = nominalOthers d + 45"
    by (simp add: nominalTotal_def three_flags[OF assms])
  have lo: "51 \<le> nominalTotal d" using others_lower[of d] by (simp add: E)
  have "51 \<le> jsround (rawScore d)" using round_lower[of 51 d] lo by simp
  then have a: "51 \<le> totalScore (computeRiskScore d)" by (simp add: computeRiskScore_eq)
  then have b: "level (computeRiskScore d) \<noteq> LOW" by (simp add: level_eq levelOf_def)
  have c: "level (computeRiskScore d) = HIGH \<and> 60 < totalScore (computeRiskScore d)"
    if "31 / 2 < nominalOthers d"
    using tier_HIGH[of d] that by (simp add: E)
  have d: "level (computeRiskScore d) = MEDIUM \<and> totalScore (computeRiskScore d) \<le> 60"
    if "nominalOthers d < 31 / 2"
    using tier_MEDIUM[of d] that lo by (simp add: E)
  from a b c d show ?thesis by blast
qed

lemma nominal_est3: "nominalOthers (establishedWallet threeFlags) = 6"
  "nominalTotal (establishedWallet threeFlags) = 51"
  by (simp_all add: nominalTotal_def nominalOthers_def est3)

lemma nominal_fresh3: "nominalOthers (freshWallet 2 2 threeFlags) = 109 / 4"
  "nominalTotal (freshWallet 2 2 threeFlags) = 289 / 4"
  by (simp_all add: nominalTotal_def nominalOthers_def fresh3)

lemma nominal_est1: "nominalOthers (establishedWallet [mixerFlag]) = 6"
  "nominalTotal (establishedWallet [mixerFlag]) = 26"
  by (simp_all add: nominalTotal_def nominalOthers_def est1)

lemma nominal_fresh1: "nominalOthers (freshWallet 3 15 [mixerFlag]) = 97 / 4"
  "nominalTotal (freshWallet 3 15 [mixerFlag]) = 177 / 4"
  by (simp_all add: nominalTotal_def nominalOthers_def fresh1)

text \<open>
  C1 as stated fails: the established wallet carries three scam flags and scores 51,
  tier MEDIUM.
\<close>

theorem three_flags_not_high:
  "3 \<le> length (scamFlags (establishedWallet threeFlags))
   \<and> totalScore (computeRiskScore (establishedWallet threeFlags)) = 51
   \<and> level (computeRiskScore (establishedWallet threeFlags)) = MEDIUM"
proof -
  have n: "length (scamFlags (establishedWallet threeFlags)) = 3"
    by (simp add: establishedWallet_def threeFlags_def)
  have t: "totalScore (computeRiskScore (establishedWallet threeFlags)) = 51"
    using total_between[of 51 "establishedWallet threeFlags" 51]
    by (simp add: nominal_est3)
  then have "level (computeRiskScore (establishedWallet threeFlags)) = MEDIUM"
    by (simp add: level_eq levelOf_def)
  with n t show ?thesis by simp
qed

text \<open>
  Both cases of C1 occur: the fresh wallet of the test suite (2 days old, 2 transactions,
  three flags) is HIGH, the established wallet is MEDIUM.
\<close>

theorem three_flags_score_witness:
  "3 \<le> length (scamFlags (freshWallet 2 2 threeFlags))
   \<and> 31 / 2 < nominalOthers (freshWallet 2 2 threeFlags)
   \<and> 51 \<le> totalScore (computeRiskScore (freshWallet 2 2 threeFlags))
   \<and> level (computeRiskScore (freshWallet 2 2 threeFlags)) = HIGH
   \<and> 60 < totalScore (computeRiskScore (freshWallet 2 2 threeFlags))
   \<and> 3 \<le> length (scamFlags (establishedWallet threeFlags))
   \<and> nominalOthers (establishedWallet threeFlags) < 31 / 2
   \<and> level (computeRiskScore (establishedWallet threeFlags)) = MEDIUM
   \<and> totalScore (computeRiskScore (establishedWallet threeFlags)) \<le> 60"
proof -
  have n: "3 \<le> length (scamFlags (freshWallet 2 2 threeFlags))"
          "3 \<le> length (scamFlags (establishedWallet threeFlags))"
    by (simp_all add: freshWallet_def establishedWallet_def threeFlags_def)
  from three_flags_score[OF n(1)] three_flags_score[OF n(2)] n
  show ?thesis by (simp add: nominal_fresh3 nominal_est3)
qed

text \<open>
  C2. For every wallet snapshot, \<open>computeRiskScore\<close> returns exactly seven signals, with
  the seven fixed labels; their weights sum to 1.0 within 1e-9, both as exact values of the
  doubles and when added up in double arithmetic as the test suite does; the score lies
  in [0, 100], and clamping after rounding (as the source does) equals rounding after
  clamping (as the specification writes it).
\<close>

theorem computeRiskScore_signals_and_range:
  "length (signals (computeRiskScore d)) = 7
   \<and> map name (signals (computeRiskScore d)) =
       [''Account Age'', ''Transaction Volume'', ''Scam Database'', ''Large Transfers'',
        ''Contract Approvals'', ''Funding Source'', ''Token Diversity'']
   \<and> \<bar>sum_list (map weight (signals (computeRiskScore d))) - 1\<bar> \<le> 1 / 10 ^ 9
   \<and> \<bar>foldl (\<lambda>acc s. fl (acc + weight s)) 0 (signals (computeRiskScore d)) - 1\<bar> \<le> 1 / 10 ^ 9
   \<and> 0 \<le> totalScore (computeRiskScore d)
   \<and> totalScore (computeRiskScore d) \<le> 100
   \<and> totalScore (computeRiskScore d) = jsround (max 0 (min 100 (rawScore d)))"
proof -
  have s: "signals (computeRiskScore d) = allSignals d" by (simp add: computeRiskScore_eq)
  have "length (allSignals d) = 7" by (simp add: allSignals_def)
  moreover have "map name (allSignals d) =
       [''Account Age'', ''Transaction Volume'', ''Scam Database'', ''Large Transfers'',
        ''Contract Approvals'', ''Funding Source'', ''Token Diversity'']"
    by (simp add: allSignals_def scoreAccountAge_def scoreTransactionVolume_def
        scoreScamInteractions_def scoreLargeTransfers_def scoreContractApprovals_def
        scoreFundingSource_def scoreTokenDiversity_def Let_def)
  moreover have "totalScore (computeRiskScore d) = jsround (max 0 (min 100 (rawScore d)))"
    by (simp only: jsround_clamp computeRiskScore_eq RiskScore.simps)
  moreover have "0 \<le> totalScore (computeRiskScore d)" "totalScore (computeRiskScore d) \<le> 100"
    by (simp_all add: computeRiskScore_eq)
  ultimately show ?thesis
    by (simp add: s weights_exact_sum weights_float_sum)
qed

lemma days_ge:
  assumes "7 * 86400 \<le> a"
  shows "\<not> fl (of_int a / 86400) < 7"
proof (cases "a = 604800")
  case True
  have "fl 7 = 7" by code_simp
  then show ?thesis using True by simp
next
  case False
  with assms have "604801 \<le> a" by simp
  then have "(604801::rat) \<le> of_int a" by (simp add: of_int_le_iff[where 'a=rat, of 604801, simplified])
  then have x: "604801 / 86400 \<le> (of_int a :: rat) / 86400" by (simp add: divide_right_mono)
  then have x0: "0 \<le> (of_int a :: rat) / 86400" by simp
  have "7 < (604801 / 86400 :: rat) * Lc" by (simp add: Lc_def)
  also have "\<dots> \<le> of_int a / 86400 * Lc" using x Lc_bounds by (intro mult_right_mono) auto
  also have "\<dots> \<le> fl (of_int a / 86400)" by (rule fl_lower'[OF x0])
  finally show ?thesis by simp
qed

lemma age_at_least_week:
  assumes "accountAge d = Some a" "7 * 86400 \<le> a"
  shows "score (scoreAccountAge d) \<in> {60, 30, 10}"
  using days_ge[OF assms(2)] assms(1) by (simp add: scoreAccountAge_def Let_def)

lemma others_upper_week:
  assumes "accountAge d = Some a" "7 * 86400 \<le> a"
  shows "nominalOthers d \<le> 105 / 2"
proof -
  have "score (scoreAccountAge d) \<le> 60" using age_at_least_week[OF assms] by auto
  moreover have "score (scoreTransactionVolume d) \<le> 60" using volume_cases[of d] by auto
  moreover have "score (scoreLargeTransfers d) \<le> 80" using transfers_cases[of d] by auto
  moreover have "score (scoreContractApprovals d) \<le> 70" using approvals_cases[of d] by auto
  moreover have "score (scoreFundingSource d) \<le> 90" using funding_cases[of d] by auto
  moreover have "score (scoreTokenDiversity d) \<le> 60" using token_cases[of d] by auto
  ultimately show ?thesis
    unfolding nominalOthers_def
    by (simp add: of_int_le_iff[where 'a=rat, of _ 60, simplified]
        of_int_le_iff[where 'a=rat, of _ 80, simplified]
        of_int_le_iff[where 'a=rat, of _ 70, simplified]
        of_int_le_iff[where 'a=rat, of _ 90, simplified])
qed

lemma drained:
  "score (scoreAccountAge drainedWallet) = 60"
  "score (scoreTransactionVolume drainedWallet) = 60"
  "score (scoreScamInteractions drainedWallet) = 40"
  "score (scoreLargeTransfers drainedWallet) = 80"
  "score (scoreContractApprovals drainedWallet) = 70"
  "score (scoreFundingSource drainedWallet) = 40"
  "score (scoreTokenDiversity drainedWallet) = 15"
  "scamBoost drainedWallet = 10"
  by code_simp+

lemma nominal_drained: "nominalOthers drainedWallet = 43" "nominalTotal drainedWallet = 63"
  by (simp_all add: nominalTotal_def nominalOthers_def drained)

text \<open>
  C3 (as amended). For every wallet snapshot with exactly one scam flag, of category
  "mixer", and an account age of at least 7 days, the scam signal and the boost contribute
  10 + 10 points and the score lies between 26 and 73. The tier is LOW when the other six
  signals contribute less than 10.5 weighted points, MEDIUM (score in (30, 60]) when they
  contribute more than 10.5 and less than 40.5, and HIGH when they contribute more than
  40.5.
\<close>

theorem single_mixer_flag_score:
  assumes "scamFlags d = [f]" "category f = js ''mixer''"
    and "accountAge d = Some a" "7 * 86400 \<le> a"
  shows "26 \<le> totalScore (computeRiskScore d) \<and> totalScore (computeRiskScore d) \<le> 73
       \<and> (nominalOthers d < 21 / 2 \<longrightarrow>
            level (computeRiskScore d) = LOW \<and> totalScore (computeRiskScore d) \<le> 30)
       \<and> (21 / 2 < nominalOthers d \<and> nominalOthers d < 81 / 2 \<longrightarrow>
            level (computeRiskScore d) = MEDIUM
            \<and> 30 < totalScore (computeRiskScore d) \<and> totalScore (computeRiskScore d) \<le> 60)
       \<and> (81 / 2 < nominalOthers d \<longrightarrow>
            level (computeRiskScore d) = HIGH \<and> 60 < totalScore (computeRiskScore d))"
proof -
  have len: "length (scamFlags d) = 1" using assms(1) by simp
  have E: "nominalTotal d = nominalOthers d + 20"
    by (simp add: nominalTotal_def one_flag[OF len])
  have lo: "26 \<le> nominalTotal d" using others_lower[of d] by (simp add: E)
  have hi: "nominalTotal d \<le> 145 / 2" using others_upper_week[OF assms(3,4)] by (simp add: E)
  have a: "26 \<le> totalScore (computeRiskScore d)" "totalScore (computeRiskScore d) \<le> 73"
    using total_between[of 26 d 73] lo hi by simp_all
  have b: "level (computeRiskScore d) = LOW \<and> totalScore (computeRiskScore d) \<le> 30"
    if "nominalOthers d < 21 / 2"
    using tier_LOW[of d] that by (simp add: E)
  have c: "level (computeRiskScore d) = MEDIUM
            \<and> 30 < totalScore (computeRiskScore d) \<and> totalScore (computeRiskScore d) \<le> 60"
    if "21 / 2 < nominalOthers d \<and> nominalOthers d < 81 / 2"
    using tier_MEDIUM[of d] that by (simp add: E)
  have d: "level (computeRiskScore d) = HIGH \<and> 60 < totalScore (computeRiskScore d)"
    if "81 / 2 < nominalOthers d"
    using tier_HIGH[of d] that by (simp add: E)
  from a b c d show ?thesis by blast
qed

text \<open>
  C3 as stated fails: the established wallet with one mixer flag is a year old and scores
  26, tier LOW.
\<close>

theorem single_mixer_flag_low:
  "scamFlags (establishedWallet [mixerFlag]) = [mixerFlag]
   \<and> category mixerFlag = js ''mixer''
   \<and> accountAge (establishedWallet [mixerFlag]) = Some (365 * 86400)
   \<and> totalScore (computeRiskScore (establishedWallet [mixerFlag])) = 26
   \<and> level (computeRiskScore (establishedWallet [mixerFlag])) = LOW"
proof -
  have t: "totalScore (computeRiskScore (establishedWallet [mixerFlag])) = 26"
    using total_between[of 26 "establishedWallet [mixerFlag]" 26]
    by (simp add: nominal_est1)
  then have "level (computeRiskScore (establishedWallet [mixerFlag])) = LOW"
    by (simp add: level_eq levelOf_def)
  with t show ?thesis by (simp add: establishedWallet_def mixerFlag_def)
qed

text \<open>
  All three cases of C3 occur: the 15-day-old wallet of the test suite is MEDIUM, the
  established wallet LOW, the drained wallet HIGH.
\<close>

theorem single_mixer_flag_score_witness:
  "scamFlags (freshWallet 3 15 [mixerFlag]) = [mixerFlag]
   \<and> category mixerFlag = js ''mixer''
   \<and> accountAge (freshWallet 3 15 [mixerFlag]) = Some (15 * 86400)
   \<and> (7 * 86400 :: int) \<le> 15 * 86400
   \<and> 21 / 2 < nominalOthers (freshWallet 3 15 [mixerFlag])
   \<and> nominalOthers (freshWallet 3 15 [mixerFlag]) < 81 / 2
   \<and> level (computeRiskScore (freshWallet 3 15 [mixerFlag])) = MEDIUM
   \<and> 30 < totalScore (computeRiskScore (freshWallet 3 15 [mixerFlag]))
   \<and> totalScore (computeRiskScore (freshWallet 3 15 [mixerFlag])) \<le> 60
   \<and> nominalOthers (establishedWallet [mixerFlag]) < 21 / 2
   \<and> level (computeRiskScore (establishedWallet [mixerFlag])) = LOW
   \<and> 81 / 2 < nominalOthers drainedWallet
   \<and> level (computeRiskScore drainedWallet) = HIGH
   \<and> 60 < totalScore (computeRiskScore drainedWallet)
   \<and> totalScore (computeRiskScore drainedWallet) \<le> 73"
proof -
  have m: "category mixerFlag = js ''mixer''" by (simp add: mixerFlag_def)
  have w: "(7 * 86400 :: int) \<le> 15 * 86400" "(7 * 86400 :: int) \<le> 365 * 86400" by simp_all
  have f: "scamFlags (freshWallet 3 15 [mixerFlag]) = [mixerFlag]"
          "accountAge (freshWallet 3 15 [mixerFlag]) = Some (15 * 86400)"
    by (simp_all add: freshWallet_def)
  have e: "scamFlags (establishedWallet [mixerFlag]) = [mixerFlag]"
          "accountAge (establishedWallet [mixerFlag]) = Some (365 * 86400)"
    by (simp_all add: establishedWallet_def)
  have g: "scamFlags drainedWallet = [mixerFlag]"
          "accountAge drainedWallet = Some (15 * 86400)"
    by (simp_all add: drainedWallet_def)
  from single_mixer_flag_score[OF f(1) m f(2) w(1)]
       single_mixer_flag_score[OF e(1) m e(2) w(2)]
       single_mixer_flag_score[OF g(1) m g(2) w(1)]
  show ?thesis
    by (simp add: nominal_fresh1 nominal_est1 nominal_drained f m)
qed


section \<open>Properties of the cache\<close>

lemma cacheGet_hit:
  assumes "cache c key = Some e" "now \<le> expiresAt e"
  shows "cacheGet now key c = (Some (entryValue e), c)"
  using assms by (simp add: cacheGet_def)

lemma cacheGet_expired:
  assumes "cache c key = Some e" "expiresAt e < now"
  shows "cacheGet now key c = (None, c\<lparr>cache := (cache c)(key := None)\<rparr>)"
  using assms by (simp add: cacheGet_def)

lemma cacheGet_Some:
  assumes "fst (cacheGet now key c) = Some v"
  shows "\<exists>e. cache c key = Some e \<and> entryValue e = v \<and> now \<le> expiresAt e"
  using assms by (auto simp: cacheGet_def split: option.splits if_splits)

lemma cacheGet_other:
  assumes "key' \<noteq> key"
  shows "cache (snd (cacheGet now key' c)) key = cache c key"
  using assms by (auto simp: cacheGet_def split: option.splits)

text \<open>
  C8. For every key and value, \<open>get\<close> after \<open>set\<close> returns exactly the stored value
  and leaves the cache as it was while the clock has not passed the expiry \<open>now + ttl\<close>
  fixed at the time of the \<open>set\<close>. Once the clock exceeds an entry's expiry, \<open>get\<close>
  returns absent and removes that entry (and no other), however long it sat there. A
  value that \<open>get\<close> returns is the stored value of an entry that has not expired. Until
  then an expired entry stays in the map: reading or writing another key leaves it.
\<close>

theorem ttlCache_roundtrip_and_expiry:
  "(later \<le> now + ttlMs c \<longrightarrow>
      cacheGet later key (cacheSet now key v c) = (Some v, cacheSet now key v c))
   \<and> (now + ttlMs c < later \<longrightarrow>
      fst (cacheGet later key (cacheSet now key v c)) = None
      \<and> cache (snd (cacheGet later key (cacheSet now key v c))) key = None)
   \<and> (cache c key = Some e \<and> expiresAt e < later \<longrightarrow>
      fst (cacheGet later key c) = None \<and> cache (snd (cacheGet later key c)) key = None
      \<and> (\<forall>k. k \<noteq> key \<longrightarrow> cache (snd (cacheGet later key c)) k = cache c k))
   \<and> (fst (cacheGet later key c) = Some v \<longrightarrow>
      (\<exists>e. cache c key = Some e \<and> entryValue e = v \<and> later \<le> expiresAt e))
   \<and> (cache c key = Some e \<and> other \<noteq> key \<longrightarrow>
      cache (snd (cacheGet later other c)) key = Some e
      \<and> cache (cacheSet later other v' c) key = Some e)"
proof (intro conjI impI)
  assume "later \<le> now + ttlMs c"
  then show "cacheGet later key (cacheSet now key v c) = (Some v, cacheSet now key v c)"
    by (simp add: cacheGet_def cacheSet_def)
next
  assume a: "now + ttlMs c < later"
  then show "fst (cacheGet later key (cacheSet now key v c)) = None"
    by (simp add: cacheGet_def cacheSet_def)
  from a show "cache (snd (cacheGet later key (cacheSet now key v c))) key = None"
    by (simp add: cacheGet_def cacheSet_def)
next
  assume a: "cache c key = Some e \<and> expiresAt e < later"
  then show "fst (cacheGet later key c) = None" by (simp add: cacheGet_def)
  from a show "cache (snd (cacheGet later key c)) key = None" by (simp add: cacheGet_def)
  from a show "\<forall>k. k \<noteq> key \<longrightarrow> cache (snd (cacheGet later key c)) k = cache c k"
    by (simp add: cacheGet_def)
next
  assume "fst (cacheGet later key c) = Some v"
  then show "\<exists>e. cache c key = Some e \<and> entryValue e = v \<and> later \<le> expiresAt e"
    by (rule cacheGet_Some)
next
  assume a: "cache c key = Some e \<and> other \<noteq> key"
  then show "cache (snd (cacheGet later other c)) key = Some e"
    using cacheGet_other[of other key later c] by simp
  from a show "cache (cacheSet later other v' c) key = Some e"
    by (auto simp: cacheSet_def)
qed

text \<open>The test of the suite: a 50 ms entry read after 30 ms and after 80 ms.\<close>

theorem ttlCache_roundtrip_and_expiry_witness:
  "(30 :: int) \<le> 0 + ttlMs (newTtlCache 50 :: string TtlCache)
   \<and> cacheGet 30 (js ''key1'') (cacheSet 0 (js ''key1'') ''value1'' (newTtlCache 50))
       = (Some ''value1'', cacheSet 0 (js ''key1'') ''value1'' (newTtlCache 50))
   \<and> 0 + ttlMs (newTtlCache 50 :: string TtlCache) < (80 :: int)
   \<and> fst (cacheGet 80 (js ''key1'') (cacheSet 0 (js ''key1'') ''value1'' (newTtlCache 50))) = None
   \<and> cache (snd (cacheGet 80 (js ''key1'') (cacheSet 0 (js ''key1'') ''value1'' (newTtlCache 50))))
        (js ''key1'') = None"
  using ttlCache_roundtrip_and_expiry[of 30 0 "newTtlCache 50 :: string TtlCache" "js ''key1''" "''value1''"]
        ttlCache_roundtrip_and_expiry[of 80 0 "newTtlCache 50 :: string TtlCache" "js ''key1''" "''value1''"]
  by (simp add: newTtlCache_def)

section \<open>Properties of the per-user rate limiter\<close>

lemma checkAndRecord_denied_unchanged:
  "fst (checkAndRecord now fid l) = False \<Longrightarrow> snd (checkAndRecord now fid l) = l"
  by (simp add: checkAndRecord_def Let_def split: if_splits)













text \<open>
  C10. A call of \<open>checkAndRecord\<close> that returns denied leaves the limiter as it was: the
  identity's recorded timestamps are unchanged, so every later call, of this or any other
  identity, is answered as if the denied attempt had not been made.
\<close>

theorem denied_attempt_not_recorded:
  assumes "fst (checkAndRecord now fid l) = False"
  shows "snd (checkAndRecord now fid l) = l
       \<and> recorded (snd (checkAndRecord now fid l)) fid = recorded l fid
       \<and> checkAndRecord later g (snd (checkAndRecord now fid l)) = checkAndRecord later g l"
  using checkAndRecord_denied_unchanged[OF assms] by simp

text \<open>
  Limit 1 per 50 ms: after a call at 0 the attempt at 10 is denied and not recorded, and
  the call at 50 is allowed, which a recorded attempt at 10 would have prevented.
\<close>

theorem denied_attempt_not_recorded_witness:
  "fst (checkAndRecord 10 500 limiterAfterOneCall) = False
   \<and> snd (checkAndRecord 10 500 limiterAfterOneCall) = limiterAfterOneCall
   \<and> recorded (snd (checkAndRecord 10 500 limiterAfterOneCall)) 500 = [0]
   \<and> fst (checkAndRecord 50 500 (snd (checkAndRecord 10 500 limiterAfterOneCall))) = True"
proof -
  have d: "fst (checkAndRecord 10 500 limiterAfterOneCall) = False"
    by (simp add: limiterAfterOneCall_def newUserRateLimiter_def checkAndRecord_def recorded_def Let_def)
  have r: "recorded limiterAfterOneCall 500 = [0]"
    by (simp add: limiterAfterOneCall_def newUserRateLimiter_def checkAndRecord_def recorded_def Let_def)
  have a: "fst (checkAndRecord 50 500 limiterAfterOneCall) = True"
    by (simp add: limiterAfterOneCall_def newUserRateLimiter_def checkAndRecord_def recorded_def Let_def)
  from denied_attempt_not_recorded[OF d, of 50 500] d r a show ?thesis by simp
qed


section \<open>Properties of the scam registry\<close>

lemma batch_fold:
  "foldl (\<lambda>results addr.
              if isWhitelisted addr then results
              else (case db (toLowerCase addr) of
                      None \<Rightarrow> results
                    | Some m \<Rightarrow> results(addr \<mapsto> localFlag m)))
       r0 addresses a
   = (if a \<in> set addresses \<and> \<not> isWhitelisted a \<and> db (toLowerCase a) \<noteq> None
      then map_option localFlag (db (toLowerCase a)) else r0 a)"
proof (induction addresses arbitrary: r0)
  case Nil
  then show ?case by simp
next
  case (Cons x xs)
  show ?case
    by (simp add: Cons.IH split: option.splits) auto
qed

lemma batchCheckLocal_at:
  "batchCheckLocal db addresses a
   = (if a \<in> set addresses \<and> \<not> isWhitelisted a then map_option localFlag (db (toLowerCase a))
      else None)"
  unfolding batchCheckLocal_def batch_fold by auto

text \<open>
  C6. For every list of addresses and every local table, \<open>batchCheckLocal\<close> returns no
  entry for a whitelisted address, whatever the local table holds for it; whitelist
  membership depends only on the lower-case form of the address. An entry of the returned
  map belongs to an address of the input that is not whitelisted and whose lower-case form
  is in the local table, and carries that table entry as a flag from source "local"; every
  such address has an entry, and every other address is absent from the map.
\<close>

theorem batchCheckLocal_skips_whitelist:
  "(isWhitelisted a \<longrightarrow> batchCheckLocal db addresses a = None)
   \<and> (toLowerCase a = toLowerCase a' \<longrightarrow> isWhitelisted a = isWhitelisted a')
   \<and> (batchCheckLocal db addresses a = Some flag \<longrightarrow>
        a \<in> set addresses \<and> \<not> isWhitelisted a
        \<and> (\<exists>m. db (toLowerCase a) = Some m \<and> flag = localFlag m))
   \<and> (a \<in> set addresses \<and> \<not> isWhitelisted a \<and> db (toLowerCase a) = Some m \<longrightarrow>
        batchCheckLocal db addresses a = Some (localFlag m))
   \<and> dom (batchCheckLocal db addresses)
       = {a \<in> set addresses. \<not> isWhitelisted a \<and> toLowerCase a \<in> dom db}"
  by (auto simp: batchCheckLocal_at isWhitelisted_def split: if_splits)

lemma example_whitelisted:
  "isWhitelisted routerMixedCase" "\<not> isWhitelisted tornadoRouter" "\<not> isWhitelisted cleanAddress"
  by code_simp+

lemma example_db:
  "misconfiguredDb (toLowerCase routerMixedCase)
     = Some \<lparr>matchCategory = js ''drainer'', matchDescription = js ''Pink Drainer associated address''\<rparr>"
  "misconfiguredDb (toLowerCase tornadoRouter)
     = Some \<lparr>matchCategory = js ''mixer'', matchDescription = js ''Tornado Cash Router''\<rparr>"
  "misconfiguredDb (toLowerCase cleanAddress) = None"
  by code_simp+

text \<open>
  A table seeded with the Uniswap router under the label "Pink Drainer", as an earlier
  seed file had it: the router, queried in mixed case, is skipped although the table
  holds it; the Tornado Cash router is flagged; an unknown address is absent.
\<close>

theorem batchCheckLocal_skips_whitelist_witness:
  "isWhitelisted routerMixedCase
   \<and> misconfiguredDb (toLowerCase routerMixedCase)
       = Some \<lparr>matchCategory = js ''drainer'', matchDescription = js ''Pink Drainer associated address''\<rparr>
   \<and> batchCheckLocal misconfiguredDb [routerMixedCase, tornadoRouter, cleanAddress] routerMixedCase = None
   \<and> tornadoRouter \<in> set [routerMixedCase, tornadoRouter, cleanAddress]
   \<and> \<not> isWhitelisted tornadoRouter
   \<and> batchCheckLocal misconfiguredDb [routerMixedCase, tornadoRouter, cleanAddress] tornadoRouter
       = Some \<lparr>source = js ''local'', category = js ''mixer'', description = js ''Tornado Cash Router''\<rparr>
   \<and> batchCheckLocal misconfiguredDb [routerMixedCase, tornadoRouter, cleanAddress] cleanAddress = None"
proof -
  let ?addrs = "[routerMixedCase, tornadoRouter, cleanAddress]"
  let ?batch = "batchCheckLocal misconfiguredDb ?addrs"
  let ?m = "\<lparr>matchCategory = js ''mixer'', matchDescription = js ''Tornado Cash Router''\<rparr>"
  have a: "?batch routerMixedCase = None"
    using batchCheckLocal_skips_whitelist[where a = routerMixedCase and a' = routerMixedCase
        and db = misconfiguredDb and addresses = ?addrs and flag = "localFlag ?m" and m = ?m]
      example_whitelisted(1) by blast
  have b: "?batch tornadoRouter = Some (localFlag ?m)"
    using batchCheckLocal_skips_whitelist[where a = tornadoRouter and a' = tornadoRouter
        and db = misconfiguredDb and addresses = ?addrs and flag = "localFlag ?m" and m = ?m]
      example_whitelisted(2) example_db(2) by simp
  have c: "?batch cleanAddress = None"
  proof (cases "?batch cleanAddress")
    case None then show ?thesis .
  next
    case (Some flag)
    with batchCheckLocal_skips_whitelist[where a = cleanAddress and a' = cleanAddress
        and db = misconfiguredDb and addresses = ?addrs and flag = flag and m = ?m]
      example_db(3) show ?thesis by auto
  qed
  from a b c example_whitelisted example_db(1) show ?thesis by (simp add: localFlag_def)
qed

section \<open>Properties of the provider rotator\<close>









section \<open>Properties of the report formatter\<close>

lemma utf8Length_low_cons:
  "isLowSurrogate e \<Longrightarrow> utf8Length (e # r) = 3 + utf8Length r"
  by (cases r) (auto simp: isLowSurrogate_def isHighSurrogate_def)

lemma utf8Length_cons_bounds:
  "1 + utf8Length r \<le> utf8Length (c # r)" "utf8Length (c # r) \<le> utf8Length [c] + utf8Length r"
  by (cases r; auto simp: utf8Length_low_cons)+

lemma utf8Length_append_le:
  "utf8Length (xs @ ys) \<le> utf8Length xs + utf8Length ys"
proof (induction xs rule: utf8Length.induct)
  case 1
  then show ?case by simp
next
  case (2 c)
  show ?case using utf8Length_cons_bounds(2)[of c ys] by simp
next
  case (3 c d rest)
  then show ?case by auto
qed

lemma utf8Length_prefix_le:
  "utf8Length xs \<le> utf8Length (xs @ ys)"
proof (induction xs rule: utf8Length.induct)
  case 1
  then show ?case by simp
next
  case (2 c)
  show ?case using utf8Length_cons_bounds(1)[of ys c] by (cases ys) auto
next
  case (3 c d rest)
  then show ?case by auto
qed

lemma utf8Length_take_le: "utf8Length (take n xs) \<le> utf8Length xs"
  using utf8Length_prefix_le[of "take n xs" "drop n xs"] by simp

lemma truncateLoop_returns:
  assumes "0 \<le> availableBytes"
  shows "\<exists>t. truncateLoop availableBytes str = Some t \<and> int (utf8Length t) \<le> availableBytes
           \<and> prefix t str"
proof (induction "length str" arbitrary: str rule: less_induct)
  case less
  show ?case
  proof (cases "int (utf8Length str) > availableBytes")
    case False
    then show ?thesis by (subst truncateLoop.simps) simp
  next
    case True
    with assms have "str \<noteq> []" by auto
    then have "length (take (length str - 10) str) < length str" by simp
    from less[OF this] obtain t where
      t: "truncateLoop availableBytes (take (length str - 10) str) = Some t"
         "int (utf8Length t) \<le> availableBytes" "prefix t (take (length str - 10) str)"
      by blast
    have "prefix t str" using t(3) take_is_prefix prefix_order.trans by blast
    with t True show ?thesis by (subst truncateLoop.simps) simp
  qed
qed

text \<open>What the loop returns fits; with no bytes available it returns nothing.\<close>

lemma truncateLoop_result_fits:
  assumes "truncateLoop availableBytes str = Some t"
  shows "int (utf8Length t) \<le> availableBytes"
proof (rule truncateLoop.raw_induct[where P = "\<lambda>a s y. int (utf8Length y) \<le> a", OF _ assms])
  fix f :: "int \<Rightarrow> jsstring \<Rightarrow> jsstring option" and a s y
  assume ih: "\<And>a' s' y'. f a' s' = Some y' \<Longrightarrow> int (utf8Length y') \<le> a'"
    and r: "(if a < int (utf8Length s) then f a (take (length s - 10) s) else Some s) = Some y"
  show "int (utf8Length y) \<le> a"
  proof (cases "a < int (utf8Length s)")
    case True
    with r have "f a (take (length s - 10) s) = Some y" by simp
    then show ?thesis by (rule ih)
  next
    case False
    with r show ?thesis by simp
  qed
qed

lemma truncateLoop_never_returns:
  assumes "availableBytes < 0"
  shows "truncateLoop availableBytes str = None"
proof (cases "truncateLoop availableBytes str")
  case None
  then show ?thesis .
next
  case (Some t)
  from truncateLoop_result_fits[OF Some] assms show ?thesis by simp
qed

lemma disclaimer_bytes: "utf8Length ([10, 10] @ configDisclaimer) = 101"
  by code_simp

lemma ellipsis_bytes: "utf8Length (js ''...'') = 3"
  by code_simp

lemma truncateToByteLimit_bound:
  assumes "104 \<le> maxBytes"
  shows "\<exists>out. truncateToByteLimit s maxBytes = Some out \<and> utf8Length out \<le> maxBytes
           \<and> suffix (js ''...'' @ [10, 10] @ configDisclaimer) out"
proof -
  let ?tail = "[10, 10] @ configDisclaimer"
  let ?avail = "int maxBytes - int (utf8Length ?tail) - 3"
  have avail: "0 \<le> ?avail" using assms unfolding disclaimer_bytes by linarith
  from truncateLoop_returns[OF avail, of s] obtain t where
    t: "truncateLoop ?avail s = Some t" "int (utf8Length t) \<le> ?avail"
    by blast
  define cut where "cut = (if of_int (lastIndexOf t 10) > fl (of_nat (length t) * fl (7 / 10))
                        then take (nat (lastIndexOf t 10)) t else t)"
  have out: "truncateToByteLimit s maxBytes = Some (cut @ js ''...'' @ ?tail)"
    unfolding truncateToByteLimit_def Let_def t(1) cut_def by simp
  have "utf8Length cut \<le> utf8Length t" by (simp add: cut_def utf8Length_take_le)
  then have c: "int (utf8Length cut) \<le> ?avail" using t(2) by linarith
  have "utf8Length (cut @ js ''...'' @ ?tail) \<le> utf8Length cut + utf8Length (js ''...'' @ ?tail)"
    by (rule utf8Length_append_le)
  also have "utf8Length (js ''...'' @ ?tail) \<le> utf8Length (js ''...'') + utf8Length ?tail"
    by (rule utf8Length_append_le)
  finally have "utf8Length (cut @ js ''...'' @ ?tail) \<le> utf8Length cut + 3 + utf8Length ?tail"
    unfolding ellipsis_bytes by linarith
  with c have "utf8Length (cut @ js ''...'' @ ?tail) \<le> maxBytes" by linarith
  moreover have "suffix (js ''...'' @ ?tail) (cut @ js ''...'' @ ?tail)"
    by (simp add: suffix_def)
  ultimately show ?thesis using out by blast
qed

text \<open>
  With a ceiling under 104 bytes nothing is left for the text: the loop does not end.
  The configured ceiling is 1024.
\<close>

lemma truncateToByteLimit_small_ceiling:
  assumes "maxBytes < 104"
  shows "truncateToByteLimit s maxBytes = None"
proof -
  have "int maxBytes - int (utf8Length ([10, 10] @ configDisclaimer)) - 3 < 0"
    unfolding disclaimer_bytes using assms by linarith
  from truncateLoop_never_returns[OF this, of s] show ?thesis
    by (simp add: truncateToByteLimit_def Let_def)
qed

text \<open>
  C4. For every report, \<open>formatForCast\<close> returns, and the UTF-8 encoding of the string
  it returns is at most the configured ceiling of 1024 bytes, however long the summary,
  the findings or the labels are. A text within the ceiling is returned as assembled and
  ends with the report's disclaimer; a longer text is cut and ends with an ellipsis, an
  empty line and the configured disclaimer, whose 101 bytes and the 3 of the ellipsis
  were set aside before the loop ran. A report carrying the configured disclaimer, as
  every report that \<open>generateReport\<close> builds does, therefore always yields a string that
  ends with, and so contains, the disclaimer.
\<close>

theorem formatForCast_within_limit:
  "\<exists>out. formatForCast report = Some out
     \<and> utf8Length out \<le> maxReportLength
     \<and> (utf8Length (assembleCast report) \<le> maxReportLength \<longrightarrow>
          out = assembleCast report \<and> suffix (disclaimer report) out)
     \<and> (maxReportLength < utf8Length (assembleCast report) \<longrightarrow>
          suffix (js ''...'' @ [10, 10] @ configDisclaimer) out)
     \<and> (disclaimer report = configDisclaimer \<longrightarrow>
          suffix configDisclaimer out \<and> includes_str out configDisclaimer)"
proof (cases "utf8Length (assembleCast report) > maxReportLength")
  case False
  have s: "suffix (disclaimer report) (assembleCast report)"
    by (simp add: assembleCast_def Let_def suffix_def)
  then have "disclaimer report = configDisclaimer \<longrightarrow>
        suffix configDisclaimer (assembleCast report) \<and> includes_str (assembleCast report) configDisclaimer"
    by (auto simp: includes_str_def)
  with False s show ?thesis by (simp add: formatForCast_def Let_def)
next
  case True
  have "104 \<le> maxReportLength" by (simp add: maxReportLength_def)
  from truncateToByteLimit_bound[OF this, of "assembleCast report"] obtain out where
    out: "truncateToByteLimit (assembleCast report) maxReportLength = Some out"
         "utf8Length out \<le> maxReportLength"
         "suffix (js ''...'' @ [10, 10] @ configDisclaimer) out"
    by blast
  have "suffix configDisclaimer (js ''...'' @ [10, 10] @ configDisclaimer)"
    by (metis append.assoc suffixI)
  with out(3) have sc: "suffix configDisclaimer out" using suffix_order.trans by blast
  then have "includes_str out configDisclaimer" by (simp add: includes_str_def)
  with True out sc show ?thesis by (simp add: formatForCast_def Let_def)
qed

lemma utf8Length_ge_length: "length xs \<le> utf8Length xs"
  by (induction xs rule: utf8Length.induct) auto

lemma sample_bytes: "utf8Length (assembleCast sampleReport) = 385"
  by code_simp

lemma long_length: "length (assembleCast longReport) = 1497"
  by code_simp

text \<open>
  The report of the test suite takes 385 bytes and is returned as assembled; with three
  findings of 400 characters it exceeds the ceiling and is cut to fit, disclaimer last.
\<close>

theorem formatForCast_within_limit_witness:
  "disclaimer sampleReport = configDisclaimer
   \<and> utf8Length (assembleCast sampleReport) \<le> maxReportLength
   \<and> formatForCast sampleReport = Some (assembleCast sampleReport)
   \<and> suffix configDisclaimer (assembleCast sampleReport)
   \<and> disclaimer longReport = configDisclaimer
   \<and> maxReportLength < utf8Length (assembleCast longReport)
   \<and> (case formatForCast longReport of
          None \<Rightarrow> False
        | Some out \<Rightarrow> utf8Length out \<le> maxReportLength \<and> suffix configDisclaimer out)"
proof -
  have d: "disclaimer sampleReport = configDisclaimer" "disclaimer longReport = configDisclaimer"
    by (simp_all add: sampleReport_def longReport_def)
  have a: "utf8Length (assembleCast sampleReport) \<le> maxReportLength"
    by (simp add: sample_bytes maxReportLength_def)
  have b: "maxReportLength < utf8Length (assembleCast longReport)"
    using utf8Length_ge_length[of "assembleCast longReport"]
    by (simp add: long_length maxReportLength_def)
  from formatForCast_within_limit[of sampleReport] formatForCast_within_limit[of longReport] d a b
  show ?thesis by auto
qed

section \<open>Properties of the analysis pipeline\<close>

lemma runAnalysis_Some:
  assumes "runAnalysis fetchWalletData generateReport now addr c = (Some report, c')"
  shows "c' = cacheSet now addr report c"
  using assms by (auto simp: runAnalysis_def Let_def split: option.splits)

lemma cacheGet_miss:
  assumes "cacheGet now key c = (None, c1)"
  shows "ttlMs c1 = ttlMs c" "\<forall>k. k \<noteq> key \<longrightarrow> cache c1 k = cache c k"
  using assms by (auto simp: cacheGet_def split: option.splits if_splits)

lemma cacheGet_found:
  assumes "cacheGet now key c = (Some v, c1)"
  shows "c1 = c" "\<exists>e. cache c key = Some e \<and> entryValue e = v \<and> now \<le> expiresAt e"
  using assms by (auto simp: cacheGet_def split: option.splits if_splits)

text \<open>
  C5 (as amended). For every successfully analyzed address, \<open>runAnalysis\<close> inserts the
  completed report into the expiring cache under the address string it was given,
  unchanged, and touches no other key. The request handler passes it the address that
  \<open>extractAddress\<close> returns, which is \<open>getAddress\<close> of the matched text (the
  checksummed form), and reads the cache under that same string: cache keys are the
  checksummed form, and no key is lower-cased.
\<close>

theorem runAnalysis_cache_key:
  "(runAnalysis fetchWalletData generateReport now addr c = (Some report, c') \<longrightarrow>
      cache c' addr = Some \<lparr>entryValue = report, expiresAt = now + ttlMs c\<rparr>
      \<and> (\<forall>k. k \<noteq> addr \<longrightarrow> cache c' k = cache c k))
   \<and> (analyzeEndpoint getAddress fetchWalletData generateReport now later param c
         = (FreshReport report, c') \<longrightarrow>
      (\<exists>raw addr. firstAddress param = Some raw \<and> getAddress raw = Some addr
         \<and> fst (cacheGet now addr c) = None
         \<and> cache c' addr = Some \<lparr>entryValue = report, expiresAt = later + ttlMs c\<rparr>
         \<and> (\<forall>k. k \<noteq> addr \<longrightarrow> cache c' k = cache c k)))
   \<and> (analyzeEndpoint getAddress fetchWalletData generateReport now later param c
         = (CachedReport report, c') \<longrightarrow>
      (\<exists>raw addr e. firstAddress param = Some raw \<and> getAddress raw = Some addr
         \<and> cache c addr = Some e \<and> entryValue e = report \<and> now \<le> expiresAt e \<and> c' = c))"
proof -
  have A: "cache c' addr = Some \<lparr>entryValue = report, expiresAt = now + ttlMs c\<rparr>
      \<and> (\<forall>k. k \<noteq> addr \<longrightarrow> cache c' k = cache c k)"
    if "runAnalysis fetchWalletData generateReport now addr c = (Some report, c')"
    using runAnalysis_Some[OF that] by (simp add: cacheSet_def)
  have B: "\<exists>raw addr. firstAddress param = Some raw \<and> getAddress raw = Some addr
         \<and> fst (cacheGet now addr c) = None
         \<and> cache c' addr = Some \<lparr>entryValue = report, expiresAt = later + ttlMs c\<rparr>
         \<and> (\<forall>k. k \<noteq> addr \<longrightarrow> cache c' k = cache c k)"
    if a: "analyzeEndpoint getAddress fetchWalletData generateReport now later param c
         = (FreshReport report, c')"
  proof -
    from a obtain raw addr where ra: "firstAddress param = Some raw" "getAddress raw = Some addr"
      by (auto simp: analyzeEndpoint_def extractAddress_def split: option.splits)
    obtain g c1 where g: "cacheGet now addr c = (g, c1)" by (cases "cacheGet now addr c")
    from a ra g have miss: "g = None"
      and run: "runAnalysis fetchWalletData generateReport later addr c1 = (Some report, c')"
      by (auto simp: analyzeEndpoint_def extractAddress_def split: option.splits prod.splits)
    from g miss cacheGet_miss[of now addr c c1]
    have c1: "ttlMs c1 = ttlMs c" "\<forall>k. k \<noteq> addr \<longrightarrow> cache c1 k = cache c k" by simp_all
    from runAnalysis_Some[OF run] c1
    have "cache c' addr = Some \<lparr>entryValue = report, expiresAt = later + ttlMs c\<rparr>"
         "\<forall>k. k \<noteq> addr \<longrightarrow> cache c' k = cache c k"
      by (simp_all add: cacheSet_def)
    with ra g miss show ?thesis by auto
  qed
  have C: "\<exists>raw addr e. firstAddress param = Some raw \<and> getAddress raw = Some addr
         \<and> cache c addr = Some e \<and> entryValue e = report \<and> now \<le> expiresAt e \<and> c' = c"
    if a: "analyzeEndpoint getAddress fetchWalletData generateReport now later param c
         = (CachedReport report, c')"
  proof -
    from a obtain raw addr where ra: "firstAddress param = Some raw" "getAddress raw = Some addr"
      by (auto simp: analyzeEndpoint_def extractAddress_def split: option.splits)
    obtain g c1 where g: "cacheGet now addr c = (g, c1)" by (cases "cacheGet now addr c")
    from a ra g have hit: "g = Some report" "c1 = c'"
      by (auto simp: analyzeEndpoint_def extractAddress_def split: option.splits prod.splits)
    from cacheGet_found[of now addr c report c1] g hit ra show ?thesis by auto
  qed
  from A B C show ?thesis by blast
qed

lemma example_addresses:
  "toLowerCase checksummedExample \<noteq> checksummedExample"
  "toLowerCase checksummedExample = lowercaseExample"
  "lowercaseExample \<noteq> checksummedExample"
  "firstAddress lowercaseExample = Some lowercaseExample"
  "getAddressExample lowercaseExample = Some checksummedExample"
  by code_simp+

lemma exampleRun_eq:
  "exampleRun =
     (templateReport ((establishedWallet [])\<lparr>address := checksummedExample\<rparr>)
        (totalScore (computeRiskScore ((establishedWallet [])\<lparr>address := checksummedExample\<rparr>)))
        (level (computeRiskScore ((establishedWallet [])\<lparr>address := checksummedExample\<rparr>)))
        (signals (computeRiskScore ((establishedWallet [])\<lparr>address := checksummedExample\<rparr>))),
      cacheSet 1000 checksummedExample
        (the (templateReport ((establishedWallet [])\<lparr>address := checksummedExample\<rparr>)
           (totalScore (computeRiskScore ((establishedWallet [])\<lparr>address := checksummedExample\<rparr>)))
           (level (computeRiskScore ((establishedWallet [])\<lparr>address := checksummedExample\<rparr>)))
           (signals (computeRiskScore ((establishedWallet [])\<lparr>address := checksummedExample\<rparr>)))))
        emptyReportCache)"
  by (simp add: exampleRun_def runAnalysis_def fetchExample_def templateReport_def Let_def)

lemma exampleRun_Some: "fst exampleRun \<noteq> None"
  by (simp add: exampleRun_eq templateReport_def)

lemma exampleRequest_eq:
  "exampleRequest = (FreshReport (the (fst exampleRun)), snd exampleRun)"
proof -
  have miss: "cacheGet 0 checksummedExample emptyReportCache = (None, emptyReportCache)"
    by (simp add: cacheGet_def emptyReportCache_def newTtlCache_def)
  obtain r where r: "fst exampleRun = Some r" using exampleRun_Some by auto
  then have run: "runAnalysis fetchExample templateReport 1000 checksummedExample emptyReportCache
      = (Some r, snd exampleRun)"
    by (simp add: exampleRun_def prod_eq_iff)
  show ?thesis
    unfolding exampleRequest_def analyzeEndpoint_def extractAddress_def
    by (simp add: example_addresses miss run r)
qed

text \<open>
  C5 as stated fails: after the analysis of 0x742D35Cc6634C0532925A3b844Bc9E7595F8B3A1
  the report is cached under that mixed-case string and nothing is cached under its
  lower-case form, also when the request spelled the address in lower case.
\<close>

theorem cache_key_not_lowercase:
  "fst exampleRun \<noteq> None
   \<and> map_option entryValue (cache (snd exampleRun) checksummedExample) = fst exampleRun
   \<and> toLowerCase checksummedExample \<noteq> checksummedExample
   \<and> cache (snd exampleRun) (toLowerCase checksummedExample) = None
   \<and> fst exampleRequest = FreshReport (the (fst exampleRun))
   \<and> map_option entryValue (cache (snd exampleRequest) checksummedExample) = fst exampleRun
   \<and> cache (snd exampleRequest) lowercaseExample = None"
proof -
  have a: "map_option entryValue (cache (snd exampleRun) checksummedExample) = fst exampleRun"
    by (simp add: exampleRun_eq cacheSet_def templateReport_def)
  have b: "cache (snd exampleRun) lowercaseExample = None"
    using example_addresses(3)
    by (simp add: exampleRun_eq cacheSet_def emptyReportCache_def newTtlCache_def)
  from a b exampleRun_Some example_addresses show ?thesis
    by (simp add: exampleRequest_eq)
qed

text \<open>The example run and the example request, with the key each leaves in the cache.\<close>

theorem runAnalysis_cache_key_witness:
  "runAnalysis fetchExample templateReport 1000 checksummedExample emptyReportCache
     = (Some (the (fst exampleRun)), snd exampleRun)
   \<and> cache (snd exampleRun) checksummedExample
       = Some \<lparr>entryValue = the (fst exampleRun), expiresAt = 1000 + ttlMs emptyReportCache\<rparr>
   \<and> analyzeEndpoint getAddressExample fetchExample templateReport 0 1000 lowercaseExample
         emptyReportCache = (FreshReport (the (fst exampleRun)), snd exampleRequest)
   \<and> cache (snd exampleRequest) checksummedExample
       = Some \<lparr>entryValue = the (fst exampleRun), expiresAt = 1000 + ttlMs emptyReportCache\<rparr>"
proof -
  have run: "runAnalysis fetchExample templateReport 1000 checksummedExample emptyReportCache
     = (Some (the (fst exampleRun)), snd exampleRun)"
    using exampleRun_Some by (auto simp: exampleRun_def prod_eq_iff)
  have req: "analyzeEndpoint getAddressExample fetchExample templateReport 0 1000 lowercaseExample
         emptyReportCache = (FreshReport (the (fst exampleRun)), snd exampleRequest)"
    using exampleRequest_eq by (simp add: exampleRequest_def prod_eq_iff)
  note t = runAnalysis_cache_key[where fetchWalletData = fetchExample
      and generateReport = templateReport and now = 1000 and later = 1000
      and addr = checksummedExample and c = emptyReportCache
      and report = "the (fst exampleRun)" and c' = "snd exampleRun"
      and getAddress = getAddressExample and param = lowercaseExample]
  from t run have a: "cache (snd exampleRun) checksummedExample
       = Some \<lparr>entryValue = the (fst exampleRun), expiresAt = 1000 + ttlMs emptyReportCache\<rparr>"
    by blast
  then have b: "cache (snd exampleRequest) checksummedExample
       = Some \<lparr>entryValue = the (fst exampleRun), expiresAt = 1000 + ttlMs emptyReportCache\<rparr>"
    by (simp add: exampleRequest_eq)
  from run req a b show ?thesis by blast
qed


end
